theory Spec2Isabelle
  imports Complex_Main
begin

section \<open>Data model\<close>

text \<open>
  The library works on numpy arrays. A two-dimensional array carries its shape, which
  matters for arrays with a zero dimension (an incidence matrix with no column still has
  \<open>N\<close> rows, and its transpose has \<open>N\<close> columns and no row), so an array is a record of
  its shape and its rows. A cluster label is a float; the missing sentinel is NaN. The code
  only ever tests a label with \<open>isnan\<close>, compares labels with \<open>==\<close> and sorts them, so a
  label is modelled as \<open>'a option\<close> over a linear order, \<open>None\<close> being NaN.
\<close>

datatype py_error =
    ValueError string
  | IndexError
  | KeyError
  | AttributeError
  | TypeError
  | PartitionerError string

record 'a ndarray =
  shape0 :: nat
  shape1 :: nat
  rows :: "'a list list"

definition wf_array :: "'a ndarray \<Rightarrow> bool" where
  "wf_array A \<longleftrightarrow> length (rows A) = shape0 A \<and> (\<forall>r \<in> set (rows A). length r = shape1 A)"

definition np_zeros :: "nat \<Rightarrow> nat \<Rightarrow> int ndarray" where
  "np_zeros m n = \<lparr>shape0 = m, shape1 = n, rows = replicate m (replicate n 0)\<rparr>"

text \<open>\<open>np.hstack\<close> and \<open>np.vstack\<close> of two arrays whose shapes agree (the code only stacks
  arrays it has built with agreeing shapes).\<close>

definition np_hstack :: "'a ndarray \<Rightarrow> 'a ndarray \<Rightarrow> 'a ndarray" where
  "np_hstack A B = \<lparr>shape0 = shape0 A, shape1 = shape1 A + shape1 B,
                     rows = map2 (@) (rows A) (rows B)\<rparr>"

definition np_vstack :: "'a ndarray \<Rightarrow> 'a ndarray \<Rightarrow> 'a ndarray" where
  "np_vstack A B = \<lparr>shape0 = shape0 A + shape0 B, shape1 = shape1 A,
                     rows = rows A @ rows B\<rparr>"

text \<open>\<open>A[:, j]\<close> and \<open>A.T\<close>.\<close>

definition column :: "'a ndarray \<Rightarrow> nat \<Rightarrow> 'a list" where
  "column A j = map (\<lambda>r. r ! j) (rows A)"

definition np_T :: "'a ndarray \<Rightarrow> 'a ndarray" where
  "np_T A = \<lparr>shape0 = shape1 A, shape1 = shape0 A,
               rows = map (column A) [0..<shape1 A]\<rparr>"

text \<open>\<open>np.dot\<close> of two integer matrices.\<close>

definition dot_int :: "int list \<Rightarrow> int list \<Rightarrow> int" where
  "dot_int u v = sum_list (map2 (*) u v)"

definition np_dot :: "int ndarray \<Rightarrow> int ndarray \<Rightarrow> int ndarray" where
  "np_dot A B = \<lparr>shape0 = shape0 A, shape1 = shape1 B,
                  rows = map (\<lambda>r. map (\<lambda>j. dot_int r (column B j)) [0..<shape1 B]) (rows A)\<rparr>"

section \<open>create_hypergraph\<close>

text \<open>\<open>bc[~np.isnan(bc)]\<close>: the labels of a run that are not missing, in order.\<close>

definition nonmissing :: "'a option list \<Rightarrow> 'a list" where
  "nonmissing bc = map the (filter (\<lambda>e. e \<noteq> None) bc)"

text \<open>\<open>np.unique\<close>: the sorted distinct elements.\<close>

definition np_unique :: "'a::linorder list \<Rightarrow> 'a list" where
  "np_unique xs = sorted_list_of_set (set xs)"

text \<open>The inner loop \<open>for i, elem_bc in enumerate(bc)\<close>, which sets \<open>h[i, bc2id[elem_bc]] = 1\<close>
  for every label that is not NaN. The dictionary lookup raises KeyError on an absent key and
  the assignment raises IndexError out of range.\<close>

fun mark_rows :: "('a \<rightharpoonup> nat) \<Rightarrow> (nat \<times> 'a option) list \<Rightarrow> int list list
    \<Rightarrow> py_error + int list list" where
  "mark_rows bc2id [] h = Inr h"
| "mark_rows bc2id ((i, None) # es) h = mark_rows bc2id es h"
| "mark_rows bc2id ((i, Some v) # es) h =
     (case bc2id v of
        None \<Rightarrow> Inl KeyError
      | Some c \<Rightarrow>
          if i < length h \<and> c < length (h ! i)
          then mark_rows bc2id es (h[i := (h ! i)[c := 1]])
          else Inl IndexError)"

text \<open>The body of the outer loop up to the block \<open>h\<close> of one run.\<close>

definition run_block :: "nat \<Rightarrow> 'a::linorder option list \<Rightarrow> py_error + int ndarray" where
  "run_block len_bcs bc =
     (let unique_bc = np_unique (nonmissing bc);
          len_unique_bc = length unique_bc;
          bc2id = map_of (zip unique_bc [0..<len_unique_bc]);
          h = np_zeros len_bcs len_unique_bc
      in case mark_rows bc2id (enumerate 0 bc) (rows h) of
           Inl e \<Rightarrow> Inl e
         | Inr h' \<Rightarrow> Inr (h\<lparr>rows := h'\<rparr>))"

text \<open>The outer loop \<open>for bc in base_clusters\<close>, with \<open>H\<close> as its state (\<open>None\<close> until the
  first run has been processed).\<close>

fun hypergraph_loop :: "nat \<Rightarrow> 'a::linorder option list list \<Rightarrow> int ndarray option
    \<Rightarrow> py_error + int ndarray option" where
  "hypergraph_loop len_bcs [] H = Inr H"
| "hypergraph_loop len_bcs (bc # bcs) H =
     (case run_block len_bcs bc of
        Inl e \<Rightarrow> Inl e
      | Inr h \<Rightarrow>
          hypergraph_loop len_bcs bcs
            (case H of None \<Rightarrow> Some h | Some H' \<Rightarrow> Some (np_hstack H' h)))"

definition create_hypergraph :: "'a::linorder option ndarray \<Rightarrow> py_error + int ndarray option" where
  "create_hypergraph base_clusters =
     hypergraph_loop (shape1 base_clusters) (rows base_clusters) None"

text \<open>Vocabulary of the statements: the distinct labels of a run in sorted order, their
  number \<open>K\<^sub>r\<close>, and the first column of run \<open>r\<close>'s block.\<close>

definition run_labels :: "'a::linorder option list \<Rightarrow> 'a list" where
  "run_labels bc = sorted_list_of_set {v. Some v \<in> set bc}"

definition num_labels :: "'a option list \<Rightarrow> nat" where
  "num_labels bc = card {v. Some v \<in> set bc}"

definition block_offset :: "'a option list list \<Rightarrow> nat \<Rightarrow> nat" where
  "block_offset bcs r = (\<Sum>q<r. num_labels (bcs ! q))"

definition one_hot :: "'a list \<Rightarrow> 'a option \<Rightarrow> int list" where
  "one_hot labs e = map (\<lambda>v. if e = Some v then 1 else 0) labs"

text \<open>The rows of the incidence matrix in closed form: row \<open>i\<close> is the concatenation, in run
  order, of the one-hot segments of object \<open>i\<close>.\<close>

definition hyper_rows :: "nat \<Rightarrow> 'a::linorder option list list \<Rightarrow> int list list" where
  "hyper_rows n bcs = map (\<lambda>i. concat (map (\<lambda>bc. one_hot (run_labels bc) (bc ! i)) bcs)) [0..<n]"

text \<open>A small ensemble with a missing label, used to instantiate the theorems.\<close>

definition ex_bcs :: "nat option ndarray" where
  "ex_bcs = \<lparr>shape0 = 2, shape1 = 3, rows = [ [Some 0, Some 0, Some 1], [None, Some 5, Some 2]]\<rparr>"

section \<open>to_pymetis_format\<close>

text \<open>\<open>np.nonzero(row)[0]\<close>: the indices of the non-zero entries, ascending.\<close>

definition np_nonzero :: "'a::zero list \<Rightarrow> nat list" where
  "np_nonzero row = filter (\<lambda>j. row ! j \<noteq> 0) [0..<length row]"

text \<open>The loop \<open>for row in adj_mat\<close> on the state \<open>(xadj, adjncy, eweights)\<close>.\<close>

fun pymetis_loop :: "'a::zero list list \<Rightarrow> nat list \<times> nat list \<times> 'a list
    \<Rightarrow> nat list \<times> nat list \<times> 'a list" where
  "pymetis_loop [] st = st"
| "pymetis_loop (row # rs) (xadj, adjncy, eweights) =
     (let idx = np_nonzero row;
          val = map (\<lambda>j. row ! j) idx;
          adjncy' = adjncy @ idx;
          eweights' = eweights @ val
      in pymetis_loop rs (xadj @ [length adjncy'], adjncy', eweights'))"

definition to_pymetis_format :: "'a::zero ndarray \<Rightarrow> nat list \<times> nat list \<times> 'a list" where
  "to_pymetis_format adj_mat = pymetis_loop (rows adj_mat) ([0], [], [])"

text \<open>How the partitioner reads node \<open>i\<close> out of the triple: the slice of the flat sequence
  between two consecutive offsets.\<close>

definition csr_row :: "nat list \<Rightarrow> 'b list \<Rightarrow> nat \<Rightarrow> 'b list" where
  "csr_row xadj xs i = take (xadj ! Suc i - xadj ! i) (drop (xadj ! i) xs)"

text \<open>The external k-way partitioner \<open>pymetis.part_graph(nparts, xadj, adjncy, eweights)[1]\<close>
  is a parameter of the solvers: it returns a membership vector or fails. Its contract, as
  the specification gives it: one value in \<open>[0, nparts)\<close> for each node of the graph, for a
  positive number of parts.\<close>

type_synonym partitioner = "nat \<Rightarrow> nat list \<Rightarrow> nat list \<Rightarrow> int list option \<Rightarrow> py_error + nat list"

definition part_ok :: "partitioner \<Rightarrow> bool" where
  "part_ok part_graph \<longleftrightarrow>
     (\<forall>nparts xadj adjncy eweights. 0 < nparts \<longrightarrow>
        (\<exists>membership.
           part_graph nparts xadj adjncy eweights = Inr membership
           \<and> length membership = length xadj - 1
           \<and> (\<forall>v \<in> set membership. v < nparts)))"

section \<open>cspa\<close>

definition cspa :: "partitioner \<Rightarrow> 'a::linorder option ndarray \<Rightarrow> nat \<Rightarrow> py_error + nat list" where
  "cspa part_graph base_clusters nclass =
     (case create_hypergraph base_clusters of
        Inl e \<Rightarrow> Inl e
      | Inr None \<Rightarrow> Inl AttributeError
      | Inr (Some H) \<Rightarrow>
          let S = np_dot H (np_T H);
              (xadj, adjncy, eweights) = to_pymetis_format S
          in part_graph nclass xadj adjncy (Some eweights))"

section \<open>hbgf\<close>

text \<open>The bipartite adjacency \<open>W\<close>. numpy makes it a float array with entries 0.0 and 1.0;
  only which entries are zero is ever read, so it is kept over the integers.\<close>

definition hbgf_adjacency :: "int ndarray \<Rightarrow> int ndarray" where
  "hbgf_adjacency A =
     (let rowA = shape0 A; colA = shape1 A
      in np_vstack (np_hstack (np_zeros colA colA) (np_T A))
                   (np_hstack A (np_zeros rowA rowA)))"

definition hbgf :: "partitioner \<Rightarrow> 'a::linorder option ndarray \<Rightarrow> nat \<Rightarrow> py_error + nat list" where
  "hbgf part_graph base_clusters nclass =
     (case create_hypergraph base_clusters of
        Inl e \<Rightarrow> Inl e
      | Inr None \<Rightarrow> Inl AttributeError
      | Inr (Some A) \<Rightarrow>
          let colA = shape1 A;
              W = hbgf_adjacency A;
              (xadj, adjncy, _) = to_pymetis_format W
          in case part_graph nclass xadj adjncy None of
               Inl e \<Rightarrow> Inl e
             | Inr membership \<Rightarrow> Inr (drop colA membership))"

text \<open>Closed forms used in the proofs: the running offsets of the triple.\<close>

fun cumulative :: "nat \<Rightarrow> nat list \<Rightarrow> nat list" where
  "cumulative a [] = []"
| "cumulative a (n # ns) = (a + n) # cumulative (a + n) ns"

text \<open>A partitioner that puts every node into part 0, used to instantiate the theorems.\<close>

definition part_zero :: partitioner where
  "part_zero nparts xadj adjncy eweights = Inr (replicate (length xadj - 1) 0)"

text \<open>The incidence matrix of the example ensemble.\<close>

definition ex_H :: "int ndarray" where
  "ex_H = \<lparr>shape0 = 3, shape1 = 4, rows = [ [1, 0, 0, 0], [1, 0, 0, 1], [0, 1, 1, 0]]\<rparr>"

section \<open>create_connectivity_matrix\<close>

text \<open>
  Floating-point values. A finite float is a rational number; the results of arithmetic are
  rounded to the format, and the rounding function \<open>rnd\<close> is a parameter of the model. What
  the theorems need of it is what round-to-nearest of IEEE binary64 provides: it is
  monotone and it leaves 0, 1 and 1000 unchanged (binary64 represents every integer up to
  \<open>2\<^sup>5\<^sup>3\<close> exactly). Exact arithmetic, \<open>rnd x = x\<close>, is another instance.
\<close>

datatype float64 = Fin rat | PInf | NInf | NaN

definition rounding_ok :: "(rat \<Rightarrow> rat) \<Rightarrow> bool" where
  "rounding_ok rnd \<longleftrightarrow>
     (\<forall>x y. x \<le> y \<longrightarrow> rnd x \<le> rnd y) \<and> rnd 0 = 0 \<and> rnd 1 = 1 \<and> rnd 1000 = 1000"

text \<open>The comparison \<open>elem_bc == bc\<close> of floats: NaN is equal to nothing, itself included.\<close>

definition eq_nan :: "'a option \<Rightarrow> 'a option \<Rightarrow> bool" where
  "eq_nan a b = (case a of None \<Rightarrow> False | Some x \<Rightarrow> (case b of None \<Rightarrow> False | Some y \<Rightarrow> x = y))"

text \<open>\<open>np.where(elem_bc == bc, 1, 0)\<close>.\<close>

definition where_eq :: "'a option \<Rightarrow> 'a option list \<Rightarrow> int list" where
  "where_eq elem_bc bc = map (\<lambda>x. if eq_nan elem_bc x then 1 else 0) bc"

text \<open>The inner loop \<open>for i, elem_bc in enumerate(bc): m[i] = ...\<close> on the state \<open>m\<close>. The
  arrays \<open>M\<close> and \<open>m\<close> are float arrays that only ever hold counts, which floats represent
  exactly; they are kept over the integers until the division. The index \<open>i\<close> runs over the
  positions of \<open>bc\<close>, a row of the array, so it is always a row of \<open>m\<close>.\<close>

fun comembership_rows :: "(nat \<times> 'a option) list \<Rightarrow> 'a option list \<Rightarrow> int list list
    \<Rightarrow> int list list" where
  "comembership_rows [] bc m = m"
| "comembership_rows ((i, elem_bc) # es) bc m =
     comembership_rows es bc (m[i := where_eq elem_bc bc])"

text \<open>The outer loop \<open>for bc in base_clusters\<close> on the state \<open>(M, m)\<close>; \<open>M += m\<close> adds
  entry by entry.\<close>

fun connectivity_loop :: "'a option list list \<Rightarrow> int list list \<times> int list list
    \<Rightarrow> int list list \<times> int list list" where
  "connectivity_loop [] (M, m) = (M, m)"
| "connectivity_loop (bc # bcs) (M, m) =
     (let m' = comembership_rows (enumerate 0 bc) bc m;
          M' = map2 (map2 (+)) M m'
      in connectivity_loop bcs (M', m'))"

text \<open>\<open>M /= n_bcs\<close>: the float quotient of a count by the number of runs. Dividing by zero
  gives NaN for \<open>0/0\<close> and an infinity otherwise.\<close>

definition true_divide :: "(rat \<Rightarrow> rat) \<Rightarrow> int \<Rightarrow> nat \<Rightarrow> float64" where
  "true_divide rnd x n =
     (if n = 0 then (if x = 0 then NaN else if 0 < x then PInf else NInf)
      else Fin (rnd (of_int x / of_nat n)))"

definition create_connectivity_matrix :: "(rat \<Rightarrow> rat) \<Rightarrow> 'a option ndarray \<Rightarrow> float64 ndarray" where
  "create_connectivity_matrix rnd base_clusters =
     (let n_bcs = shape0 base_clusters;
          len_bcs = shape1 base_clusters;
          M = rows (np_zeros len_bcs len_bcs);
          m = M;
          (M', m') = connectivity_loop (rows base_clusters) (M, m)
      in \<lparr>shape0 = len_bcs, shape1 = len_bcs,
          rows = map (map (\<lambda>x. true_divide rnd x n_bcs)) M'\<rparr>)"

text \<open>The number of runs in which objects \<open>i\<close> and \<open>j\<close> have equal labels, NaN being
  equal to nothing.\<close>

definition co_count :: "'a option ndarray \<Rightarrow> nat \<Rightarrow> nat \<Rightarrow> nat" where
  "co_count B i j = card {r. r < shape0 B \<and> eq_nan (rows B ! r ! i) (rows B ! r ! j)}"

section \<open>mcla\<close>

text \<open>\<open>H.astype(bool)\<close>.\<close>

definition astype_bool :: "int ndarray \<Rightarrow> bool ndarray" where
  "astype_bool H = \<lparr>shape0 = shape0 H, shape1 = shape1 H, rows = map (map (\<lambda>x. x \<noteq> 0)) (rows H)\<rparr>"

text \<open>
  The external routine \<open>pairwise_distances(X, metric='jaccard')\<close> on a boolean array: the
  entry for two rows \<open>u\<close>, \<open>v\<close> of \<open>X\<close> is the Jaccard distance, the number of positions where
  exactly one of them is true divided by the number of positions where at least one is
  true, and 0 when there is no such position. The quotient is a float, so it is rounded.
  The distances are finite, and so are the similarities computed from them; they are kept
  as rationals.
\<close>

definition jaccard :: "(rat \<Rightarrow> rat) \<Rightarrow> bool list \<Rightarrow> bool list \<Rightarrow> rat" where
  "jaccard rnd u v =
     (let num = length (filter (\<lambda>(x, y). x \<noteq> y) (zip u v));
          denom = length (filter (\<lambda>(x, y). x \<or> y) (zip u v))
      in if denom = 0 then 0 else rnd (of_nat num / of_nat denom))"

definition jaccard_matrix :: "(rat \<Rightarrow> rat) \<Rightarrow> bool ndarray \<Rightarrow> rat ndarray" where
  "jaccard_matrix rnd X =
     \<lparr>shape0 = shape0 X, shape1 = shape0 X,
      rows = map (\<lambda>u. map (\<lambda>v. jaccard rnd u v) (rows X)) (rows X)\<rparr>"

text \<open>The routine checks its input first and raises ValueError for an array without rows
  (\<open>Found array with 0 sample(s) \<dots>\<close>; the message is abbreviated here). In \<open>mcla\<close> its
  input is \<open>H.T\<close>, which has no row exactly when no run has given any label.\<close>

definition pairwise_distances_jaccard :: "(rat \<Rightarrow> rat) \<Rightarrow> bool ndarray
    \<Rightarrow> py_error + rat ndarray" where
  "pairwise_distances_jaccard rnd X =
     (if shape0 X = 0 then Inl (ValueError ''Found array with 0 sample(s)'')
      else Inr (jaccard_matrix rnd X))"

text \<open>\<open>astype(int)\<close> on a finite float: truncation towards zero.\<close>

definition astype_int :: "rat \<Rightarrow> int" where
  "astype_int x = (if 0 \<le> x then \<lfloor>x\<rfloor> else \<lceil>x\<rceil>)"

text \<open>The lines of \<open>mcla\<close> that turn the distances into the integer similarity matrix:
  \<open>S = 1 - pair_dist_jac\<close>, \<open>S *= 1e3\<close>, \<open>S = S.astype(int)\<close>. Each float operation rounds its
  result.\<close>

definition similarity_of_distances :: "(rat \<Rightarrow> rat) \<Rightarrow> rat ndarray \<Rightarrow> int ndarray" where
  "similarity_of_distances rnd pair_dist_jac =
     \<lparr>shape0 = shape0 pair_dist_jac, shape1 = shape1 pair_dist_jac,
      rows = map (map (\<lambda>d. astype_int (rnd (rnd (1 - d) * 1000)))) (rows pair_dist_jac)\<rparr>"

text \<open>The similarity matrix \<open>S\<close> of the boolean \<open>H\<close>, or the error of the distance routine.\<close>

definition mcla_similarity :: "(rat \<Rightarrow> rat) \<Rightarrow> bool ndarray \<Rightarrow> py_error + int ndarray" where
  "mcla_similarity rnd H =
     (case pairwise_distances_jaccard rnd (np_T H) of
        Inl e \<Rightarrow> Inl e
      | Inr pair_dist_jac \<Rightarrow> Inr (similarity_of_distances rnd pair_dist_jac))"

text \<open>The loop \<open>for i, v in enumerate(membership): meta_clusters[:, v] += H[:, i]\<close> on the
  state \<open>meta_clusters\<close>, an array with \<open>nclass\<close> columns. An index outside the array raises
  IndexError. The array is a float array of counts and is kept over the integers.\<close>

fun accumulate :: "nat \<Rightarrow> (nat \<times> nat) list \<Rightarrow> bool ndarray \<Rightarrow> int list list
    \<Rightarrow> py_error + int list list" where
  "accumulate nclass [] H meta_clusters = Inr meta_clusters"
| "accumulate nclass ((i, v) # es) H meta_clusters =
     (if v < nclass \<and> i < shape1 H
      then accumulate nclass es H
             (map2 (\<lambda>row h. row[v := row ! v + (if h then 1 else 0)]) meta_clusters (column H i))
      else Inl IndexError)"

text \<open>\<open>np.nonzero(v == np.max(v))[0]\<close>: the indices at which a row attains its maximum.\<close>

definition tied_max :: "int list \<Rightarrow> nat list" where
  "tied_max v = filter (\<lambda>k. v ! k = Max (set v)) [0..<length v]"

text \<open>
  The random source is explicit state of type \<open>'g\<close>. \<open>np.random.choice(a)\<close> is a parameter
  \<open>choice\<close>: it takes the state and the candidates and returns the chosen candidate and the
  next state. Its contract is that the result is one of the candidates; that it is
  uniformly distributed over them is a property of the generator, not of this code.
\<close>

type_synonym 'g chooser = "'g \<Rightarrow> nat list \<Rightarrow> nat \<times> 'g"

definition choice_ok :: "'g chooser \<Rightarrow> bool" where
  "choice_ok choice \<longleftrightarrow> (\<forall>g xs. xs \<noteq> [] \<longrightarrow> fst (choice g xs) \<in> set xs)"

text \<open>The comprehension that draws one label for each row of \<open>meta_clusters\<close>, in row
  order. \<open>np.max\<close> of an empty row raises ValueError.\<close>

fun choose_each :: "'g chooser \<Rightarrow> 'g \<Rightarrow> int list list \<Rightarrow> py_error + nat list \<times> 'g" where
  "choose_each choice g [] = Inr ([], g)"
| "choose_each choice g (v # vs) =
     (if v = [] then Inl (ValueError ''zero-size array to reduction operation maximum'')
      else (let (k, g') = choice g (tied_max v)
            in case choose_each choice g' vs of
                 Inl e \<Rightarrow> Inl e
               | Inr (ks, g'') \<Rightarrow> Inr (k # ks, g'')))"

text \<open>The part of \<open>mcla\<close> after the partitioner has answered.\<close>

definition mcla_assign :: "'g chooser \<Rightarrow> 'g \<Rightarrow> bool ndarray \<Rightarrow> nat \<Rightarrow> nat \<Rightarrow> nat list
    \<Rightarrow> py_error + nat list \<times> 'g" where
  "mcla_assign choice g H len_bcs nclass membership =
     (case accumulate nclass (enumerate 0 membership) H (rows (np_zeros len_bcs nclass)) of
        Inl e \<Rightarrow> Inl e
      | Inr meta_clusters \<Rightarrow> choose_each choice g meta_clusters)"

text \<open>The part of \<open>mcla\<close> up to the answer of the partitioner: the boolean \<open>H\<close> and the
  membership vector of its hyperedges.\<close>

definition mcla_partition :: "partitioner \<Rightarrow> (rat \<Rightarrow> rat) \<Rightarrow> 'a::linorder option ndarray \<Rightarrow> nat
    \<Rightarrow> py_error + bool ndarray \<times> nat list" where
  "mcla_partition part_graph rnd base_clusters nclass =
     (case create_hypergraph base_clusters of
        Inl e \<Rightarrow> Inl e
      | Inr None \<Rightarrow> Inl AttributeError
      | Inr (Some H0) \<Rightarrow>
          (let H = astype_bool H0
           in case mcla_similarity rnd H of
                Inl e \<Rightarrow> Inl e
              | Inr S \<Rightarrow>
                  (let (xadj, adjncy, eweights) = to_pymetis_format S
                   in case part_graph nclass xadj adjncy (Some eweights) of
                        Inl e \<Rightarrow> Inl e
                      | Inr membership \<Rightarrow> Inr (H, membership))))"

definition mcla :: "partitioner \<Rightarrow> (rat \<Rightarrow> rat) \<Rightarrow> 'g chooser \<Rightarrow> 'g
    \<Rightarrow> 'a::linorder option ndarray \<Rightarrow> nat \<Rightarrow> py_error + nat list \<times> 'g" where
  "mcla part_graph rnd choice g base_clusters nclass =
     (case mcla_partition part_graph rnd base_clusters nclass of
        Inl e \<Rightarrow> Inl e
      | Inr (H, membership) \<Rightarrow>
          mcla_assign choice g H (shape1 base_clusters) nclass membership)"

text \<open>\<open>mcla\<close> called with \<open>True\<close> for the class count, which \<open>cluster_ensembles\<close> lets
  through. The partitioner takes \<open>True\<close> for the count 1: it compares \<open>nparts\<close> with 1 and
  converts it to a C integer. After its answer \<open>np.zeros((N, True))\<close> raises a TypeError,
  numpy accepting no \<open>bool\<close> as a dimension.\<close>

definition mcla_true :: "partitioner \<Rightarrow> (rat \<Rightarrow> rat) \<Rightarrow> 'a::linorder option ndarray
    \<Rightarrow> py_error + nat list \<times> 'g" where
  "mcla_true part_graph rnd base_clusters =
     (case mcla_partition part_graph rnd base_clusters 1 of
        Inl e \<Rightarrow> Inl e
      | Inr (H, membership) \<Rightarrow> Inl TypeError)"

text \<open>A random source for the examples: the state is a counter, and the candidate at
  position counter modulo the number of candidates is chosen.\<close>

definition ex_choice :: "nat chooser" where
  "ex_choice g xs = (xs ! (g mod length xs), Suc g)"


text \<open>An ensemble of one run in which every label is missing.\<close>

definition ex_all_missing :: "nat option ndarray" where
  "ex_all_missing = \<lparr>shape0 = 1, shape1 = 3, rows = [ [None, None, None] ]\<rparr>"

text \<open>No run has given any object a label.\<close>

definition all_missing :: "'a option ndarray \<Rightarrow> bool" where
  "all_missing B \<longleftrightarrow> (\<forall>bc \<in> set (rows B). \<forall>e \<in> set bc. e = None)"

text \<open>Vocabulary of the statements: the objects of hyperedge \<open>a\<close>, and the number of
  hyperedges of meta-cluster \<open>k\<close> that contain object \<open>i\<close>.\<close>

definition hyperedge :: "int ndarray \<Rightarrow> nat \<Rightarrow> nat set" where
  "hyperedge H a = {i. i < shape0 H \<and> rows H ! i ! a \<noteq> 0}"

definition meta_count :: "int ndarray \<Rightarrow> nat list \<Rightarrow> nat \<Rightarrow> nat \<Rightarrow> nat" where
  "meta_count H membership i k =
     card {a. a < shape1 H \<and> membership ! a = k \<and> rows H ! i ! a \<noteq> 0}"

text \<open>The Jaccard distance of two sets as the specification words it, with the quotient
  rounded to a float.\<close>

definition jaccard_distance :: "(rat \<Rightarrow> rat) \<Rightarrow> nat set \<Rightarrow> nat set \<Rightarrow> rat" where
  "jaccard_distance rnd A B =
     (if A \<union> B = {} then 0
      else rnd (of_nat (card ((A \<union> B) - (A \<inter> B))) / of_nat (card (A \<union> B))))"

text \<open>The meta-clusters that tie at the maximal count for object \<open>i\<close>, ascending.\<close>

definition tied_clusters :: "int ndarray \<Rightarrow> nat list \<Rightarrow> nat \<Rightarrow> nat \<Rightarrow> nat list" where
  "tied_clusters H membership nclass i =
     filter (\<lambda>k. \<forall>k'<nclass. meta_count H membership i k' \<le> meta_count H membership i k)
       [0..<nclass]"

text \<open>The similarity matrix in closed form, for an \<open>H\<close> with at least one column.\<close>

definition similarity_values :: "(rat \<Rightarrow> rat) \<Rightarrow> bool ndarray \<Rightarrow> int ndarray" where
  "similarity_values rnd H = similarity_of_distances rnd (jaccard_matrix rnd (np_T H))"

text \<open>The states of the random source before each draw of \<open>choose_each\<close>.\<close>

fun draw_states :: "'g chooser \<Rightarrow> 'g \<Rightarrow> int list list \<Rightarrow> 'g list" where
  "draw_states choice g [] = []"
| "draw_states choice g (v # vs) = g # draw_states choice (snd (choice g (tied_max v))) vs"

section \<open>orthogonal_nmf_algorithm and nmf\<close>

text \<open>
  The factorisation computes with floats throughout. Its arithmetic (addition,
  multiplication, division and square root of binary64, with their rounding, infinities and
  NaN) is a parameter of the model, as is the constant \<open>1e-8\<close>; what is proved about \<open>nmf\<close>
  holds for every such arithmetic. The comparison of floats, which decides the final labels,
  is written out.
\<close>

record farith =
  fadd :: "float64 \<Rightarrow> float64 \<Rightarrow> float64"
  fmul :: "float64 \<Rightarrow> float64 \<Rightarrow> float64"
  fdiv :: "float64 \<Rightarrow> float64 \<Rightarrow> float64"
  fsqrt :: "float64 \<Rightarrow> float64"
  feps :: float64

text \<open>\<open>x <= y\<close> on floats: false whenever an operand is NaN.\<close>

fun fle :: "float64 \<Rightarrow> float64 \<Rightarrow> bool" where
  "fle NaN y = False"
| "fle x NaN = False"
| "fle NInf y = True"
| "fle x PInf = True"
| "fle (Fin x) (Fin y) = (x \<le> y)"
| "fle (Fin x) NInf = False"
| "fle PInf y = False"

text \<open>\<open>np.dot\<close> of float matrices: every entry is a sum of products, accumulated from 0.\<close>

definition fdot_vec :: "farith \<Rightarrow> float64 list \<Rightarrow> float64 list \<Rightarrow> float64" where
  "fdot_vec ar u v = foldl (fadd ar) (Fin 0) (map2 (fmul ar) u v)"

definition fdot :: "farith \<Rightarrow> float64 ndarray \<Rightarrow> float64 ndarray \<Rightarrow> float64 ndarray" where
  "fdot ar A B = \<lparr>shape0 = shape0 A, shape1 = shape1 B,
                   rows = map (\<lambda>r. map (\<lambda>j. fdot_vec ar r (column B j)) [0..<shape1 B]) (rows A)\<rparr>"

text \<open>Elementwise operations on arrays of one shape, and with a scalar.\<close>

definition ewise2 :: "(float64 \<Rightarrow> float64 \<Rightarrow> float64) \<Rightarrow> float64 ndarray \<Rightarrow> float64 ndarray
    \<Rightarrow> float64 ndarray" where
  "ewise2 f A B = \<lparr>shape0 = shape0 A, shape1 = shape1 A, rows = map2 (map2 f) (rows A) (rows B)\<rparr>"

definition ewise :: "(float64 \<Rightarrow> float64) \<Rightarrow> float64 ndarray \<Rightarrow> float64 ndarray" where
  "ewise f A = \<lparr>shape0 = shape0 A, shape1 = shape1 A, rows = map (map f) (rows A)\<rparr>"

text \<open>The random source: \<open>rand\<close> draws one float, uniform on \<open>[0, 1)\<close>, and returns the next
  state. \<open>np.random.rand(n, m)\<close> draws \<open>n \<cdot> m\<close> floats and fills the array row by row.\<close>

fun draws :: "('g \<Rightarrow> float64 \<times> 'g) \<Rightarrow> nat \<Rightarrow> 'g \<Rightarrow> float64 list \<times> 'g" where
  "draws rand 0 g = ([], g)"
| "draws rand (Suc k) g =
     (let (x, g') = rand g; (xs, g'') = draws rand k g' in (x # xs, g''))"

definition random_rand2 :: "('g \<Rightarrow> float64 \<times> 'g) \<Rightarrow> nat \<Rightarrow> nat \<Rightarrow> 'g \<Rightarrow> float64 ndarray \<times> 'g" where
  "random_rand2 rand n m g =
     (let (xs, g') = draws rand (n * m) g
      in (\<lparr>shape0 = n, shape1 = m, rows = map (\<lambda>i. take m (drop (i * m) xs)) [0..<n]\<rparr>, g'))"

definition np_diag :: "float64 list \<Rightarrow> float64 ndarray" where
  "np_diag d = \<lparr>shape0 = length d, shape1 = length d,
                 rows = map (\<lambda>i. map (\<lambda>j. if i = j then d ! i else Fin 0) [0..<length d])
                            [0..<length d]\<rparr>"

text \<open>The random initialisation of \<open>Q\<close> and \<open>S\<close>.\<close>

definition nmf_init :: "('g \<Rightarrow> float64 \<times> 'g) \<Rightarrow> 'g \<Rightarrow> nat \<Rightarrow> nat
    \<Rightarrow> (float64 ndarray \<times> float64 ndarray) \<times> 'g" where
  "nmf_init rand g n nclass =
     (let (Q, g1) = random_rand2 rand n nclass g;
          (d, g2) = draws rand nclass g1
      in ((Q, np_diag d), g2))"

text \<open>The body of the loop: the update of \<open>Q\<close>, then the update of \<open>S\<close> with the new \<open>Q\<close>.\<close>

definition nmf_update :: "farith \<Rightarrow> float64 ndarray \<Rightarrow> float64 ndarray \<times> float64 ndarray
    \<Rightarrow> float64 ndarray \<times> float64 ndarray" where
  "nmf_update ar W QS =
     (let Q = fst QS; S = snd QS;
          WQS = fdot ar W (fdot ar Q S);
          Q' = ewise2 (fmul ar) Q
                 (ewise (fsqrt ar)
                    (ewise2 (fdiv ar) WQS
                       (ewise (\<lambda>x. fadd ar x (feps ar)) (fdot ar Q (fdot ar (np_T Q) WQS)))));
          QTQ = fdot ar (np_T Q') Q';
          S' = ewise2 (fmul ar) S
                 (ewise (fsqrt ar)
                    (ewise2 (fdiv ar) (fdot ar (np_T Q') (fdot ar W Q'))
                       (ewise (\<lambda>x. fadd ar x (feps ar)) (fdot ar QTQ (fdot ar S QTQ)))))
      in (Q', S'))"

text \<open>\<open>for _ in range(maxiter)\<close>: the loop variable is not used, the body has no exit.\<close>

definition orthogonal_nmf_algorithm :: "farith \<Rightarrow> ('g \<Rightarrow> float64 \<times> 'g) \<Rightarrow> 'g
    \<Rightarrow> float64 ndarray \<Rightarrow> nat \<Rightarrow> nat \<Rightarrow> (float64 ndarray \<times> float64 ndarray) \<times> 'g" where
  "orthogonal_nmf_algorithm ar rand g W nclass maxiter =
     (let n = shape0 W;
          (QS, g') = nmf_init rand g n nclass
      in (fold (\<lambda>_. nmf_update ar W) [0..<maxiter] QS, g'))"

text \<open>
  \<open>np.argmax\<close> of one row, as numpy scans it: the running maximum is replaced when the next
  entry is not \<open><=\<close> it, and the scan stops at the first NaN. For a row without NaN this
  is the first index of the maximum.
\<close>

fun argmax_scan :: "float64 list \<Rightarrow> nat \<Rightarrow> float64 \<Rightarrow> nat \<Rightarrow> nat" where
  "argmax_scan [] i mp max_ind = max_ind"
| "argmax_scan (x # xs) i mp max_ind =
     (if \<not> fle x mp
      then (if x = NaN then i else argmax_scan xs (Suc i) x i)
      else argmax_scan xs (Suc i) mp max_ind)"

definition np_argmax :: "float64 list \<Rightarrow> nat" where
  "np_argmax v = (case v of [] \<Rightarrow> 0 | x # xs \<Rightarrow> if x = NaN then 0 else argmax_scan xs 1 x 0)"

text \<open>\<open>np.argmax(A, axis=1)\<close>; with no column there is nothing to take the maximum of.\<close>

definition argmax_axis1 :: "float64 ndarray \<Rightarrow> py_error + nat list" where
  "argmax_axis1 A =
     (if shape1 A = 0 then Inl (ValueError ''attempt to get argmax of an empty sequence'')
      else Inr (map np_argmax (rows A)))"

definition nmf_maxiter :: nat where
  "nmf_maxiter = 500"

definition nmf :: "farith \<Rightarrow> (rat \<Rightarrow> rat) \<Rightarrow> ('g \<Rightarrow> float64 \<times> 'g) \<Rightarrow> 'g
    \<Rightarrow> 'a option ndarray \<Rightarrow> nat \<Rightarrow> py_error + nat list \<times> 'g" where
  "nmf ar rnd rand g base_clusters nclass =
     (let M = create_connectivity_matrix rnd base_clusters;
          (QS, g') = orthogonal_nmf_algorithm ar rand g M nclass nmf_maxiter
      in case argmax_axis1 (fdot ar (fst QS) (ewise (fsqrt ar) (snd QS))) of
           Inl e \<Rightarrow> Inl e
         | Inr celabel \<Rightarrow> Inr (celabel, g'))"

text \<open>\<open>nmf\<close> called with \<open>True\<close> for the class count, which \<open>cluster_ensembles\<close> lets
  through: the connectivity matrix is built, then \<open>np.random.rand(n, True)\<close> raises a
  TypeError, numpy accepting no \<open>bool\<close> as a dimension.\<close>

definition nmf_true :: "(rat \<Rightarrow> rat) \<Rightarrow> 'a option ndarray \<Rightarrow> py_error + nat list \<times> 'g" where
  "nmf_true rnd base_clusters =
     (let M = create_connectivity_matrix rnd base_clusters in Inl TypeError)"

text \<open>An arithmetic and a random source for the examples: exact addition, multiplication
  and division of finite values, the identity for the square root, and draws that count
  \<open>0, 1/2, 0, 1/2, \<dots>\<close>\<close>

definition ex_arith :: farith where
  "ex_arith = \<lparr>
     fadd = (\<lambda>x y. case (x, y) of (Fin a, Fin b) \<Rightarrow> Fin (a + b) | _ \<Rightarrow> NaN),
     fmul = (\<lambda>x y. case (x, y) of (Fin a, Fin b) \<Rightarrow> Fin (a * b) | _ \<Rightarrow> NaN),
     fdiv = (\<lambda>x y. case (x, y) of (Fin a, Fin b) \<Rightarrow> (if b = 0 then NaN else Fin (a / b)) | _ \<Rightarrow> NaN),
     fsqrt = (\<lambda>x. x),
     feps = Fin (1 / 100000000)\<rparr>"

definition ex_rand :: "nat \<Rightarrow> float64 \<times> nat" where
  "ex_rand g = (Fin (of_nat (g mod 2) / 2), Suc g)"

section \<open>cluster_ensembles\<close>

text \<open>
  The class count argument is any Python object: \<open>None\<close>, an \<open>int\<close>, a \<open>bool\<close> (which Python
  counts as an \<open>int\<close>), or something else, of which only its \<open>str()\<close> is ever used.
\<close>

datatype pyobj = PyNone | PyInt int | PyBool bool | PyOther string

text \<open>\<open>str()\<close> of an integer, in decimal.\<close>

function str_nat :: "nat \<Rightarrow> string" where
  "str_nat n = (if n < 10 then [char_of (48 + n)]
                else str_nat (n div 10) @ [char_of (48 + n mod 10)])"
  by pat_completeness auto
termination
  by (relation "measure id") auto

declare str_nat.simps [simp del]

definition str_int :: "int \<Rightarrow> string" where
  "str_int i = (if i < 0 then CHR ''-'' # str_nat (nat (- i)) else str_nat (nat i))"

fun str_obj :: "pyobj \<Rightarrow> string" where
  "str_obj PyNone = ''None''"
| "str_obj (PyInt i) = str_int i"
| "str_obj (PyBool b) = (if b then ''True'' else ''False'')"
| "str_obj (PyOther s) = s"

text \<open>\<open>isinstance(nclass, int) and nclass > 0\<close>. A \<open>bool\<close> is an \<open>int\<close> in Python, and
  \<open>True > 0\<close> holds while \<open>False > 0\<close> does not.\<close>

fun positive_int :: "pyobj \<Rightarrow> bool" where
  "positive_int (PyInt i) = (0 < i)"
| "positive_int (PyBool b) = b"
| "positive_int PyNone = False"
| "positive_int (PyOther s) = False"

text \<open>The number an \<open>int\<close> object stands for where it is used as a count, \<open>True\<close> being 1,
  and whether the object is a \<open>bool\<close>.\<close>

fun int_count :: "pyobj \<Rightarrow> nat" where
  "int_count (PyInt i) = nat i"
| "int_count (PyBool b) = (if b then 1 else 0)"
| "int_count PyNone = 0"
| "int_count (PyOther s) = 0"

fun is_bool :: "pyobj \<Rightarrow> bool" where
  "is_bool (PyBool b) = True"
| "is_bool (PyInt i) = False"
| "is_bool PyNone = False"
| "is_bool (PyOther s) = False"

text \<open>The two error messages.\<close>

definition quoted :: "string \<Rightarrow> string" where
  "quoted s = [CHR 0x27] @ s @ [CHR 0x27]"

definition nclass_error :: "pyobj \<Rightarrow> py_error" where
  "nclass_error nclass =
     ValueError (''Number of class must be a positive integer; got (nclass='' @ str_obj nclass @ '')'')"

definition solver_error :: "string \<Rightarrow> py_error" where
  "solver_error solver =
     ValueError (''Invalid solver parameter: got '' @ quoted solver @ '' instead of one of (''
                 @ quoted ''cspa'' @ '', '' @ quoted ''mcla'' @ '', '' @ quoted ''hbgf'' @ '', ''
                 @ quoted ''nmf'' @ '')'')"

text \<open>The default class count: the loop over the runs that starts from \<open>-1\<close>.\<close>

definition default_nclass :: "'a::linorder option ndarray \<Rightarrow> int" where
  "default_nclass base_clusters =
     fold (\<lambda>bc nclass. max nclass (int (length (np_unique (nonmissing bc)))))
          (rows base_clusters) (- 1)"

text \<open>Everything the solvers take from outside: the partitioner, the float rounding and
  arithmetic, and the two operations of the random source.\<close>

record 'g env =
  env_part :: partitioner
  env_rnd :: "rat \<Rightarrow> rat"
  env_arith :: farith
  env_rand :: "'g \<Rightarrow> float64 \<times> 'g"
  env_choice :: "'g chooser"

text \<open>\<open>cspa\<close> and \<open>hbgf\<close> leave the random source as it is.\<close>

definition with_state :: "'g \<Rightarrow> py_error + nat list \<Rightarrow> py_error + nat list \<times> 'g" where
  "with_state g r = (case r of Inl e \<Rightarrow> Inl e | Inr celabel \<Rightarrow> Inr (celabel, g))"

text \<open>The class count in force after \<open>if nclass is None: \<dots>\<close> has filled in the default.\<close>

definition effective_nclass :: "'a::linorder option ndarray \<Rightarrow> pyobj \<Rightarrow> pyobj" where
  "effective_nclass base_clusters nclass =
     (case nclass of PyNone \<Rightarrow> PyInt (default_nclass base_clusters) | _ \<Rightarrow> nclass)"

text \<open>The orchestrator. The \<open>verbose\<close> flag only prints and is left out. The solver is
  called with the object that has passed the check. A positive \<open>int\<close> is the class count of
  the solvers above. \<open>True\<close> is the count 1 for the partitioner, so for \<open>cspa\<close> and \<open>hbgf\<close>,
  which use the class count nowhere else; \<open>mcla\<close> and \<open>nmf\<close> also use it as the dimension
  of an array and take the paths \<open>mcla_true\<close> and \<open>nmf_true\<close>.\<close>

definition cluster_ensembles :: "'g env \<Rightarrow> 'g \<Rightarrow> 'a::linorder option ndarray \<Rightarrow> pyobj \<Rightarrow> string
    \<Rightarrow> py_error + nat list \<times> 'g" where
  "cluster_ensembles env g base_clusters nclass solver =
     (let nclass = effective_nclass base_clusters nclass
      in if \<not> positive_int nclass then Inl (nclass_error nclass)
         else if solver = ''cspa''
           then with_state g (cspa (env_part env) base_clusters (int_count nclass))
         else if solver = ''mcla''
           then (if is_bool nclass then mcla_true (env_part env) (env_rnd env) base_clusters
                 else mcla (env_part env) (env_rnd env) (env_choice env) g base_clusters
                        (int_count nclass))
         else if solver = ''hbgf''
           then with_state g (hbgf (env_part env) base_clusters (int_count nclass))
         else if solver = ''nmf''
           then (if is_bool nclass then nmf_true (env_rnd env) base_clusters
                 else nmf (env_arith env) (env_rnd env) (env_rand env) g base_clusters
                        (int_count nclass))
         else Inl (solver_error solver))"

definition ex_env :: "nat env" where
  "ex_env = \<lparr>env_part = part_zero, env_rnd = (\<lambda>x. x), env_arith = ex_arith,
             env_rand = ex_rand, env_choice = ex_choice\<rparr>"

text \<open>The invariant of every solver's output: one label in \<open>[0, nclass)\<close> for each object.\<close>

definition valid_labels :: "nat \<Rightarrow> nat \<Rightarrow> nat list \<Rightarrow> bool" where
  "valid_labels n nclass celabel \<longleftrightarrow> length celabel = n \<and> (\<forall>x\<in>set celabel. x < nclass)"

section \<open>Example data\<close>

text \<open>The one-run example of the specification: labels \<open>[0, 0, 1]\<close>.\<close>

definition ex_one_run :: "nat option ndarray" where
  "ex_one_run = \<lparr>shape0 = 1, shape1 = 3, rows = [ [Some 0, Some 0, Some 1]]\<rparr>"

text \<open>An ensemble with no run at all, of shape \<open>(0, 2)\<close>.\<close>

definition ex_no_run :: "nat option ndarray" where
  "ex_no_run = \<lparr>shape0 = 0, shape1 = 2, rows = []\<rparr>"


section \<open>Properties of create_hypergraph\<close>

lemma nonmissing_set: "set (nonmissing bc) = {v. Some v \<in> set bc}"
  by (force simp: nonmissing_def image_iff)

lemma finite_labels: "finite {v. Some v \<in> set bc}"
proof -
  have "{v. Some v \<in> set bc} = set (nonmissing bc)" by (simp add: nonmissing_set)
  then show ?thesis by (metis List.finite_set)
qed

lemma np_unique_nonmissing: "np_unique (nonmissing bc) = run_labels bc"
  by (simp add: np_unique_def run_labels_def nonmissing_set)

lemma run_labels_props:
  "distinct (run_labels bc)" "sorted (run_labels bc)"
  "set (run_labels bc) = {v. Some v \<in> set bc}" "length (run_labels bc) = num_labels bc"
  using finite_labels[of bc]
  by (simp_all add: run_labels_def num_labels_def)

lemma bc2id_lookup:
  assumes "distinct xs" "v \<in> set xs"
  shows "\<exists>c<length xs. map_of (zip xs [0..<length xs]) v = Some c \<and> xs ! c = v"
proof -
  from assms(2) obtain c where c: "c < length xs" "xs ! c = v"
    by (auto simp: in_set_conv_nth)
  have "map_of (zip xs [0..<length xs]) (xs ! c) = Some ([0..<length xs] ! c)"
    using assms(1) c(1) by (intro map_of_zip_nth) simp_all
  with c show ?thesis by auto
qed

lemma one_hot_update:
  assumes "distinct xs" "c < length xs"
  shows "(replicate (length xs) 0)[c := 1] = one_hot xs (Some (xs ! c))"
  using assms
  by (auto simp: one_hot_def list_eq_iff_nth_eq nth_list_update nth_eq_iff_index_eq)

lemma one_hot_None: "one_hot xs None = replicate (length xs) 0"
  by (simp add: one_hot_def map_replicate_const)

lemma mark_rows_result:
  assumes "length pre = k"
    and "\<forall>v. Some v \<in> set es \<longrightarrow> v \<in> set xs"
    and "distinct xs"
  shows "mark_rows (map_of (zip xs [0..<length xs])) (enumerate k es)
           (pre @ replicate (length es) (replicate (length xs) 0))
         = Inr (pre @ map (one_hot xs) es)"
  using assms(1,2)
proof (induction es arbitrary: pre k)
  case Nil
  then show ?case by simp
next
  case (Cons e es)
  let ?z = "replicate (length xs) (0::int)"
  show ?case
  proof (cases e)
    case None
    have "mark_rows (map_of (zip xs [0..<length xs])) (enumerate (Suc k) es)
            ((pre @ [?z]) @ replicate (length es) ?z) = Inr ((pre @ [?z]) @ map (one_hot xs) es)"
      using Cons.prems by (intro Cons.IH) auto
    with None show ?thesis by (simp add: one_hot_None)
  next
    case (Some v)
    with Cons.prems have "v \<in> set xs" by auto
    from bc2id_lookup[OF assms(3) this] obtain c where
      c: "c < length xs" "map_of (zip xs [0..<length xs]) v = Some c" "xs ! c = v" by blast
    have "mark_rows (map_of (zip xs [0..<length xs])) (enumerate (Suc k) es)
            ((pre @ [?z[c := 1]]) @ replicate (length es) ?z)
          = Inr ((pre @ [?z[c := 1]]) @ map (one_hot xs) es)"
      using Cons.prems by (intro Cons.IH) auto
    moreover have "?z[c := 1] = one_hot xs (Some v)"
      using one_hot_update[OF assms(3) c(1)] c(3) by simp
    ultimately show ?thesis
      using Some c Cons.prems(1) by (simp add: nth_append list_update_append)
  qed
qed

lemma run_block_result:
  assumes "length bc = n"
  shows "run_block n bc
         = Inr \<lparr>shape0 = n, shape1 = num_labels bc, rows = map (one_hot (run_labels bc)) bc\<rparr>"
proof -
  have "mark_rows (map_of (zip (run_labels bc) [0..<length (run_labels bc)])) (enumerate 0 bc)
          ([] @ replicate (length bc) (replicate (length (run_labels bc)) 0))
        = Inr ([] @ map (one_hot (run_labels bc)) bc)"
    by (intro mark_rows_result) (simp_all add: run_labels_props)
  then show ?thesis
    using assms
    by (simp add: run_block_def np_unique_nonmissing np_zeros_def run_labels_props Let_def)
qed

lemma hypergraph_loop_Some:
  assumes "\<forall>bc\<in>set bcs. length bc = n" "length (rows H) = n"
  shows "hypergraph_loop n bcs (Some H)
         = Inr (Some \<lparr>shape0 = shape0 H, shape1 = shape1 H + sum_list (map num_labels bcs),
                       rows = map2 (@) (rows H) (hyper_rows n bcs)\<rparr>)"
  using assms
proof (induction bcs arbitrary: H)
  case Nil
  then show ?case
    by (simp add: hyper_rows_def list_eq_iff_nth_eq)
next
  case (Cons bc bcs)
  let ?h = "\<lparr>shape0 = n, shape1 = num_labels bc, rows = map (one_hot (run_labels bc)) bc\<rparr>"
  have rb: "run_block n bc = Inr ?h"
    using Cons.prems by (intro run_block_result) simp
  have len: "length (rows (np_hstack H ?h)) = n"
    using Cons.prems by (simp add: np_hstack_def)
  have "hypergraph_loop n bcs (Some (np_hstack H ?h))
        = Inr (Some \<lparr>shape0 = shape0 (np_hstack H ?h),
                      shape1 = shape1 (np_hstack H ?h) + sum_list (map num_labels bcs),
                      rows = map2 (@) (rows (np_hstack H ?h)) (hyper_rows n bcs)\<rparr>)"
    using Cons.prems len by (intro Cons.IH) simp_all
  moreover have "map2 (@) (rows (np_hstack H ?h)) (hyper_rows n bcs)
                 = map2 (@) (rows H) (hyper_rows n (bc # bcs))"
    using Cons.prems by (simp add: np_hstack_def hyper_rows_def list_eq_iff_nth_eq)
  ultimately show ?case
    using rb by (simp add: np_hstack_def add.assoc)
qed

lemma create_hypergraph_rows:
  assumes "wf_array B" "0 < shape0 B"
  shows "create_hypergraph B
         = Inr (Some \<lparr>shape0 = shape1 B, shape1 = sum_list (map num_labels (rows B)),
                       rows = hyper_rows (shape1 B) (rows B)\<rparr>)"
proof -
  from assms obtain bc bcs where B: "rows B = bc # bcs"
    by (cases "rows B") (auto simp: wf_array_def)
  let ?n = "shape1 B"
  let ?h = "\<lparr>shape0 = ?n, shape1 = num_labels bc, rows = map (one_hot (run_labels bc)) bc\<rparr>"
  have lens: "length bc = ?n" "\<forall>b\<in>set bcs. length b = ?n"
    using assms(1) B by (auto simp: wf_array_def)
  have rb: "run_block ?n bc = Inr ?h"
    using lens by (intro run_block_result) simp
  have "hypergraph_loop ?n bcs (Some ?h)
        = Inr (Some \<lparr>shape0 = shape0 ?h, shape1 = shape1 ?h + sum_list (map num_labels bcs),
                      rows = map2 (@) (rows ?h) (hyper_rows ?n bcs)\<rparr>)"
    using lens by (intro hypergraph_loop_Some) simp_all
  moreover have "map2 (@) (rows ?h) (hyper_rows ?n bcs) = hyper_rows ?n (bc # bcs)"
    using lens by (simp add: hyper_rows_def list_eq_iff_nth_eq)
  ultimately show ?thesis
    using rb B by (simp add: create_hypergraph_def)
qed

lemma concat_nth_offset:
  "r < length xss \<Longrightarrow> c < length (xss ! r)
   \<Longrightarrow> concat xss ! ((\<Sum>q<r. length (xss ! q)) + c) = xss ! r ! c"
proof (induction xss arbitrary: r)
  case Nil
  then show ?case by simp
next
  case (Cons xs xss)
  show ?case
  proof (cases r)
    case 0
    with Cons.prems show ?thesis by (simp add: nth_append)
  next
    case (Suc r')
    have "(\<Sum>q<Suc r'. length ((xs # xss) ! q)) = length xs + (\<Sum>q<r'. length (xss ! q))"
      by (subst sum.lessThan_Suc_shift) simp
    with Suc Cons.prems Cons.IH[of r'] show ?thesis
      by (simp add: nth_append add.assoc)
  qed
qed

lemma sum_list_nth_lessThan: "sum_list (map f xs) = (\<Sum>r<length xs. f (xs ! r))"
proof -
  have "sum_list (map f xs) = (\<Sum>r = 0..<length xs. map f xs ! r)"
    by (simp add: sum_list_sum_nth del: nth_map)
  also have "\<dots> = (\<Sum>r<length xs. f (xs ! r))"
    by (intro sum.cong) (auto simp: atLeast0LessThan)
  finally show ?thesis .
qed

lemma length_one_hot: "length (one_hot labs e) = length labs"
  by (simp add: one_hot_def)

lemma hyper_rows_length:
  "length (hyper_rows n bcs) = n"
  "i < n \<Longrightarrow> length (hyper_rows n bcs ! i) = sum_list (map num_labels bcs)"
  by (simp_all add: hyper_rows_def length_concat comp_def length_one_hot run_labels_props)

lemma hyper_rows_entry:
  assumes "r < length bcs" "i < n" "c < num_labels (bcs ! r)"
  shows "hyper_rows n bcs ! i ! (block_offset bcs r + c)
         = (if bcs ! r ! i = Some (run_labels (bcs ! r) ! c) then 1 else 0)"
proof -
  let ?xss = "map (\<lambda>bc. one_hot (run_labels bc) (bc ! i)) bcs"
  have len: "length (?xss ! q) = num_labels (bcs ! q)" if "q < length bcs" for q
    using that by (simp add: length_one_hot run_labels_props)
  have off: "(\<Sum>q<r. length (?xss ! q)) = block_offset bcs r"
    unfolding block_offset_def using assms(1)
    by (intro sum.cong) (auto simp: length_one_hot run_labels_props)
  have "concat ?xss ! ((\<Sum>q<r. length (?xss ! q)) + c) = ?xss ! r ! c"
    using assms by (intro concat_nth_offset) (simp_all add: length_one_hot run_labels_props)
  then have "concat ?xss ! (block_offset bcs r + c) = ?xss ! r ! c"
    by (simp only: off)
  then show ?thesis
    using assms by (simp add: hyper_rows_def one_hot_def run_labels_props)
qed

text \<open>
  Claim C3. For a base-clustering array of shape \<open>(R, N)\<close> with at least one run,
  \<open>create_hypergraph\<close> returns an \<open>N \<times> \<Sum>K\<^sub>r\<close> array. Run \<open>r\<close> owns the \<open>K\<^sub>r\<close> columns
  starting at the sum of the widths of the earlier runs, one column per distinct non-missing
  label in sorted order; the entry of object \<open>i\<close> in the column of label \<open>v\<close> is 1 when
  the run gave \<open>i\<close> the label \<open>v\<close> and 0 otherwise. So an object with a label has exactly one 1
  in the block, an object whose label is missing has none, and a run without labels has a
  block of width 0.
\<close>

theorem create_hypergraph_blocks:
  assumes "wf_array B" "0 < shape0 B"
  shows "\<exists>H. create_hypergraph B = Inr (Some H) \<and> wf_array H
           \<and> shape0 H = shape1 B
           \<and> shape1 H = (\<Sum>r<shape0 B. num_labels (rows B ! r))
           \<and> (\<forall>r<shape0 B. \<forall>i<shape1 B. \<forall>c<num_labels (rows B ! r).
                 rows H ! i ! (block_offset (rows B) r + c)
                 = (if rows B ! r ! i = Some (run_labels (rows B ! r) ! c) then 1 else 0))
           \<and> (\<forall>r<shape0 B. \<forall>i<shape1 B. \<forall>v. rows B ! r ! i = Some v \<longrightarrow>
                 (\<exists>!c. c < num_labels (rows B ! r)
                        \<and> rows H ! i ! (block_offset (rows B) r + c) = 1))"
proof -
  let ?H = "\<lparr>shape0 = shape1 B, shape1 = sum_list (map num_labels (rows B)),
             rows = hyper_rows (shape1 B) (rows B)\<rparr>"
  have R: "length (rows B) = shape0 B"
    using assms(1) by (simp add: wf_array_def)
  have H: "create_hypergraph B = Inr (Some ?H)"
    using assms by (rule create_hypergraph_rows)
  have wf: "wf_array ?H"
    by (auto simp: wf_array_def hyper_rows_length in_set_conv_nth)
  have cols: "shape1 ?H = (\<Sum>r<shape0 B. num_labels (rows B ! r))"
    using R by (simp add: sum_list_nth_lessThan)
  have entry: "rows ?H ! i ! (block_offset (rows B) r + c)
               = (if rows B ! r ! i = Some (run_labels (rows B ! r) ! c) then 1 else 0)"
    if "r < shape0 B" "i < shape1 B" "c < num_labels (rows B ! r)" for r i c
    using that R by (simp add: hyper_rows_entry)
  have single: "\<exists>!c. c < num_labels (rows B ! r)
                     \<and> rows ?H ! i ! (block_offset (rows B) r + c) = 1"
    if "r < shape0 B" "i < shape1 B" "rows B ! r ! i = Some v" for r i v
  proof -
    let ?bc = "rows B ! r"
    have "length ?bc = shape1 B"
      using assms(1) that(1) R by (simp add: wf_array_def)
    then have "Some v \<in> set ?bc"
      using that(2,3) by (metis nth_mem)
    then have "v \<in> set (run_labels ?bc)"
      by (simp add: run_labels_props)
    then obtain c where "c < length (run_labels ?bc)" "run_labels ?bc ! c = v"
      unfolding in_set_conv_nth by blast
    then have c: "c < num_labels ?bc" "run_labels ?bc ! c = v"
      by (simp_all add: run_labels_props)
    show ?thesis
    proof (rule ex1I[of _ c])
      show "c < num_labels ?bc \<and> rows ?H ! i ! (block_offset (rows B) r + c) = 1"
        using c that entry[of r i c] by simp
    next
      fix d
      assume d: "d < num_labels ?bc \<and> rows ?H ! i ! (block_offset (rows B) r + d) = 1"
      then have "run_labels ?bc ! d = v"
        using that entry[of r i d] by (simp split: if_splits)
      then have "run_labels ?bc ! d = run_labels ?bc ! c"
        using c by simp
      moreover have "d < length (run_labels ?bc)" "c < length (run_labels ?bc)"
        using c d by (simp_all add: run_labels_props)
      ultimately show "d = c"
        using run_labels_props(1)[of ?bc] by (simp add: nth_eq_iff_index_eq)
    qed
  qed
  show ?thesis
    using H wf cols entry single by (intro exI[of _ ?H]) simp
qed


theorem create_hypergraph_blocks_witness:
  "wf_array ex_bcs \<and> 0 < shape0 ex_bcs \<and>
   (\<exists>H. create_hypergraph ex_bcs = Inr (Some H) \<and> wf_array H
      \<and> shape0 H = shape1 ex_bcs
      \<and> shape1 H = (\<Sum>r<shape0 ex_bcs. num_labels (rows ex_bcs ! r))
      \<and> (\<forall>r<shape0 ex_bcs. \<forall>i<shape1 ex_bcs. \<forall>c<num_labels (rows ex_bcs ! r).
            rows H ! i ! (block_offset (rows ex_bcs) r + c)
            = (if rows ex_bcs ! r ! i = Some (run_labels (rows ex_bcs ! r) ! c) then 1 else 0))
      \<and> (\<forall>r<shape0 ex_bcs. \<forall>i<shape1 ex_bcs. \<forall>v. rows ex_bcs ! r ! i = Some v \<longrightarrow>
            (\<exists>!c. c < num_labels (rows ex_bcs ! r)
                   \<and> rows H ! i ! (block_offset (rows ex_bcs) r + c) = 1)))"
proof -
  have h1: "wf_array ex_bcs"
    by (simp add: wf_array_def ex_bcs_def)
  have h2: "0 < shape0 ex_bcs"
    by (simp add: ex_bcs_def)
  show ?thesis
    using h1 h2 create_hypergraph_blocks[OF h1 h2] by (intro conjI)
qed
section \<open>Properties of to_pymetis_format\<close>

lemma pymetis_loop_closed:
  "pymetis_loop rs (xadj, adjncy, ew)
   = (xadj @ cumulative (length adjncy) (map (\<lambda>r. length (np_nonzero r)) rs),
      adjncy @ concat (map np_nonzero rs),
      ew @ concat (map (\<lambda>r. map (\<lambda>j. r ! j) (np_nonzero r)) rs))"
  by (induction rs arbitrary: xadj adjncy ew) (simp_all add: Let_def)

lemma cumulative_length: "length (cumulative a ns) = length ns"
  by (induction ns arbitrary: a) simp_all

lemma cumulative_nth:
  "i \<le> length ns \<Longrightarrow> (a # cumulative a ns) ! i = a + sum_list (take i ns)"
proof (induction ns arbitrary: a i)
  case Nil
  then show ?case by simp
next
  case (Cons n ns)
  show ?case
  proof (cases i)
    case 0
    then show ?thesis by simp
  next
    case (Suc k)
    with Cons.prems Cons.IH[of k "a + n"] show ?thesis by (simp add: add.assoc)
  qed
qed

lemma concat_slice:
  assumes "i < length xss"
  shows "take (length (xss ! i)) (drop (sum_list (map length (take i xss))) (concat xss)) = xss ! i"
  using assms
proof (induction xss arbitrary: i)
  case Nil
  then show ?case by simp
next
  case (Cons xs xss)
  then show ?case by (cases i) simp_all
qed

lemma to_pymetis_format_closed:
  "to_pymetis_format A
   = (0 # cumulative 0 (map (\<lambda>r. length (np_nonzero r)) (rows A)),
      concat (map np_nonzero (rows A)),
      concat (map (\<lambda>r. map (\<lambda>j. r ! j) (np_nonzero r)) (rows A)))"
  by (simp add: to_pymetis_format_def pymetis_loop_closed)

lemma to_pymetis_format_rows:
  assumes "to_pymetis_format A = (xadj, adjncy, ew)"
  shows "length xadj = length (rows A) + 1"
    and "length adjncy = length ew"
    and "i < length (rows A) \<Longrightarrow> csr_row xadj adjncy i = np_nonzero (rows A ! i)"
    and "i < length (rows A) \<Longrightarrow> csr_row xadj ew i = map (\<lambda>j. rows A ! i ! j) (np_nonzero (rows A ! i))"
proof -
  let ?ns = "map (\<lambda>r. length (np_nonzero r)) (rows A)"
  let ?I = "map np_nonzero (rows A)"
  let ?V = "map (\<lambda>r. map (\<lambda>j. r ! j) (np_nonzero r)) (rows A)"
  from assms have x: "xadj = 0 # cumulative 0 ?ns" and a: "adjncy = concat ?I" and e: "ew = concat ?V"
    by (simp_all add: to_pymetis_format_closed)
  show "length xadj = length (rows A) + 1"
    by (simp add: x cumulative_length)
  show "length adjncy = length ew"
    by (simp add: a e length_concat comp_def)
  have off: "xadj ! k = sum_list (take k ?ns)" if "k \<le> length (rows A)" for k
    using that cumulative_nth[of k ?ns 0] by (simp add: x)
  have diff: "xadj ! Suc i - xadj ! i = length (np_nonzero (rows A ! i))" if "i < length (rows A)"
    using that off[of i] off[of "Suc i"] by (simp add: take_Suc_conv_app_nth)
  have lenI: "map length (take i ?I) = take i ?ns" "map length (take i ?V) = take i ?ns"
    by (simp_all add: take_map comp_def)
  show "csr_row xadj adjncy i = np_nonzero (rows A ! i)" if "i < length (rows A)"
    using that concat_slice[of i ?I] off[of i] diff lenI
    by (simp add: csr_row_def a)
  show "csr_row xadj ew i = map (\<lambda>j. rows A ! i ! j) (np_nonzero (rows A ! i))" if "i < length (rows A)"
    using that concat_slice[of i ?V] off[of i] diff lenI
    by (simp add: csr_row_def e)
qed

lemma np_nonzero_set: "set (np_nonzero row) = {j. j < length row \<and> row ! j \<noteq> 0}"
  by (auto simp: np_nonzero_def)

lemma part_zero_ok: "part_ok part_zero"
  by (simp add: part_ok_def part_zero_def)

section \<open>Properties of cspa\<close>

lemma np_T_shape: "shape0 (np_T H) = shape1 H" "shape1 (np_T H) = shape0 H"
  by (simp_all add: np_T_def)

lemma column_T:
  assumes "wf_array H" "j < shape0 H"
  shows "column (np_T H) j = rows H ! j"
proof -
  have "length (rows H ! j) = shape1 H"
    using assms by (simp add: wf_array_def)
  then show ?thesis
    using assms by (simp add: column_def np_T_def wf_array_def list_eq_iff_nth_eq)
qed

lemma np_dot_T_entry:
  assumes "wf_array H" "i < shape0 H" "j < shape0 H"
  shows "rows (np_dot H (np_T H)) ! i ! j = dot_int (rows H ! i) (rows H ! j)"
  using assms by (simp add: np_dot_def np_T_shape wf_array_def column_T)

lemma np_dot_T_wf:
  assumes "wf_array H"
  shows "wf_array (np_dot H (np_T H))" "shape0 (np_dot H (np_T H)) = shape0 H"
    "shape1 (np_dot H (np_T H)) = shape0 H"
  using assms by (auto simp: np_dot_def np_T_shape wf_array_def)

lemma dot_int_append:
  "length xs = length ys \<Longrightarrow> dot_int (xs @ us) (ys @ vs) = dot_int xs ys + dot_int us vs"
  by (simp add: dot_int_def)

lemma dot_int_concat:
  assumes "\<And>b. b \<in> set bs \<Longrightarrow> length (f b) = length (g b)"
  shows "dot_int (concat (map f bs)) (concat (map g bs)) = (\<Sum>b\<leftarrow>bs. dot_int (f b) (g b))"
  using assms
proof (induction bs)
  case Nil
  then show ?case by (simp add: dot_int_def)
next
  case (Cons b bs)
  then show ?case by (simp add: dot_int_append)
qed

lemma dot_int_one_hot:
  assumes "distinct labs"
  shows "dot_int (one_hot labs e) (one_hot labs e')
         = (if e = e' \<and> (\<exists>v \<in> set labs. e = Some v) then 1 else 0)"
  using assms
proof (induction labs)
  case Nil
  then show ?case by (simp add: dot_int_def one_hot_def)
next
  case (Cons a labs)
  then have IH: "dot_int (one_hot labs e) (one_hot labs e')
         = (if e = e' \<and> (\<exists>v \<in> set labs. e = Some v) then 1 else 0)" by simp
  have "dot_int (one_hot (a # labs) e) (one_hot (a # labs) e')
        = (if e = Some a \<and> e' = Some a then 1 else 0) + dot_int (one_hot labs e) (one_hot labs e')"
    by (simp add: dot_int_def one_hot_def)
  with IH Cons.prems show ?case by auto
qed

lemma hyper_rows_dot:
  assumes "\<forall>bc\<in>set bcs. length bc = n" "i < n" "j < n"
  shows "dot_int (hyper_rows n bcs ! i) (hyper_rows n bcs ! j)
         = int (card {r. r < length bcs \<and> bcs ! r ! i = bcs ! r ! j \<and> bcs ! r ! i \<noteq> None})"
proof -
  let ?P = "\<lambda>bc. bc ! i = bc ! j \<and> bc ! i \<noteq> None"
  have seg: "dot_int (one_hot (run_labels bc) (bc ! i)) (one_hot (run_labels bc) (bc ! j))
             = (if ?P bc then 1 else 0)" if "bc \<in> set bcs" for bc
  proof -
    have "length bc = n" using assms(1) that by simp
    then have "bc ! i \<in> set bc" using assms(2) by simp
    then have "(\<exists>v \<in> set (run_labels bc). bc ! i = Some v) \<longleftrightarrow> bc ! i \<noteq> None"
      by (cases "bc ! i") (auto simp: run_labels_props)
    then show ?thesis
      by (simp add: dot_int_one_hot run_labels_props)
  qed
  have "dot_int (hyper_rows n bcs ! i) (hyper_rows n bcs ! j)
        = (\<Sum>bc\<leftarrow>bcs. dot_int (one_hot (run_labels bc) (bc ! i)) (one_hot (run_labels bc) (bc ! j)))"
    using assms(2,3) by (simp add: hyper_rows_def dot_int_concat length_one_hot)
  also have "\<dots> = (\<Sum>bc\<leftarrow>bcs. if ?P bc then 1 else 0)"
    using seg by (intro arg_cong[of _ _ sum_list] map_cong) simp_all
  also have "\<dots> = (\<Sum>r<length bcs. if ?P (bcs ! r) then 1 else 0)"
    by (rule sum_list_nth_lessThan)
  also have "\<dots> = int (card {r. r < length bcs \<and> ?P (bcs ! r)})"
  proof -
    have "{r. r < length bcs \<and> ?P (bcs ! r)} = {r \<in> {..<length bcs}. ?P (bcs ! r)}" by auto
    then show ?thesis
      by (simp add: sum.If_cases Int_def)
  qed
  finally show ?thesis .
qed

lemma one_hot_binary: "x \<in> set (one_hot labs e) \<Longrightarrow> x = 0 \<or> x = 1"
  unfolding one_hot_def set_map by (erule imageE) (simp split: if_splits)

lemma concat_map_all:
  "(\<And>b y. y \<in> set (f b) \<Longrightarrow> P y) \<Longrightarrow> x \<in> set (concat (map f bs)) \<Longrightarrow> P x"
  by (induction bs) auto

lemma hyper_rows_binary:
  assumes "i < n" "c < length (hyper_rows n bcs ! i)"
  shows "hyper_rows n bcs ! i ! c = 0 \<or> hyper_rows n bcs ! i ! c = 1"
proof -
  let ?row = "concat (map (\<lambda>bc. one_hot (run_labels bc) (bc ! i)) bcs)"
  have row: "hyper_rows n bcs ! i = ?row"
    using assms(1) by (simp add: hyper_rows_def)
  then have "?row ! c \<in> set ?row"
    using assms(2) by (intro nth_mem) simp
  then have "?row ! c = 0 \<or> ?row ! c = 1"
    by (rule concat_map_all[rotated]) (rule one_hot_binary)
  then show ?thesis
    unfolding row .
qed

lemma dot_int_binary:
  assumes "length u = length v" "\<forall>c<length u. (u ! c = 0 \<or> u ! c = 1) \<and> (v ! c = 0 \<or> v ! c = 1)"
  shows "dot_int u v = int (card {c. c < length u \<and> u ! c = 1 \<and> v ! c = 1})"
proof -
  have "dot_int u v = (\<Sum>c<length u. u ! c * v ! c)"
  proof -
    have "map2 (*) u v = map (\<lambda>c. u ! c * v ! c) [0..<length u]"
      using assms(1) by (intro nth_equalityI) simp_all
    then have "dot_int u v = sum_list (map (\<lambda>c. u ! c * v ! c) [0..<length u])"
      by (simp only: dot_int_def)
    also have "\<dots> = (\<Sum>c<length u. u ! c * v ! c)"
      by (simp add: interv_sum_list_conv_sum_set_nat atLeast0LessThan)
    finally show ?thesis .
  qed
  also have "\<dots> = (\<Sum>c<length u. if u ! c = 1 \<and> v ! c = 1 then 1 else 0)"
    using assms(2) by (intro sum.cong) auto
  also have "\<dots> = int (card {c. c < length u \<and> u ! c = 1 \<and> v ! c = 1})"
  proof -
    have "{c. c < length u \<and> u ! c = 1 \<and> v ! c = 1} = {c \<in> {..<length u}. u ! c = 1 \<and> v ! c = 1}"
      by auto
    then show ?thesis by (simp add: sum.If_cases Int_def)
  qed
  finally show ?thesis .
qed



lemma create_hypergraph_some:
  assumes "wf_array B" "0 < shape0 B"
  shows "\<exists>H. create_hypergraph B = Inr (Some H) \<and> wf_array H \<and> shape0 H = shape1 B
             \<and> shape1 H = sum_list (map num_labels (rows B))
             \<and> rows H = hyper_rows (shape1 B) (rows B)"
proof -
  let ?H = "\<lparr>shape0 = shape1 B, shape1 = sum_list (map num_labels (rows B)),
             rows = hyper_rows (shape1 B) (rows B)\<rparr>"
  have "create_hypergraph B = Inr (Some ?H)"
    using assms by (rule create_hypergraph_rows)
  moreover have "wf_array ?H"
    by (auto simp: wf_array_def hyper_rows_length in_set_conv_nth)
  ultimately show ?thesis
    by (intro exI[of _ ?H]) simp
qed

lemma wf_array_nth: "wf_array A \<Longrightarrow> i < shape0 A \<Longrightarrow> length (rows A ! i) = shape1 A"
  by (simp add: wf_array_def)

text \<open>
  Claim C5, as amended. For a base-clustering array with at least one run, \<open>cspa\<close> computes
  \<open>S = H \<cdot> H\<^sup>T\<close>, an \<open>N \<times> N\<close> symmetric matrix whose entry \<open>(i, j)\<close> is the number of
  hyperedges (columns of \<open>H\<close>) that contain both objects. The diagonal entry of object \<open>i\<close>
  is the number of runs that gave \<open>i\<close> a label, which is \<open>R\<close> only when no label of \<open>i\<close> is
  missing. The triple handed to the partitioner lists, for each object, exactly the non-zero
  entries of its row of \<open>S\<close> with their values as weights (a non-zero diagonal entry
  included), and the result of the partitioner is returned as it is.
\<close>

theorem cspa_similarity:
  assumes "wf_array B" "0 < shape0 B"
  shows "\<exists>H S xadj adjncy ew.
      create_hypergraph B = Inr (Some H) \<and> S = np_dot H (np_T H)
    \<and> wf_array S \<and> shape0 S = shape1 B \<and> shape1 S = shape1 B
    \<and> (\<forall>i<shape1 B. \<forall>j<shape1 B.
          rows S ! i ! j = int (card {c. c < shape1 H \<and> rows H ! i ! c = 1 \<and> rows H ! j ! c = 1})
        \<and> rows S ! i ! j = rows S ! j ! i)
    \<and> (\<forall>i<shape1 B. rows S ! i ! i = int (card {r. r < shape0 B \<and> rows B ! r ! i \<noteq> None}))
    \<and> to_pymetis_format S = (xadj, adjncy, ew)
    \<and> (\<forall>i<shape1 B.
          csr_row xadj adjncy i = filter (\<lambda>j. rows S ! i ! j \<noteq> 0) [0..<shape1 B]
        \<and> csr_row xadj ew i = map (\<lambda>j. rows S ! i ! j) (csr_row xadj adjncy i)
        \<and> (rows S ! i ! i \<noteq> 0 \<longrightarrow> i \<in> set (csr_row xadj adjncy i)))
    \<and> cspa part_graph B nclass = part_graph nclass xadj adjncy (Some ew)"
proof -
  from create_hypergraph_some[OF assms] obtain H where
    H: "create_hypergraph B = Inr (Some H)" "wf_array H" "shape0 H = shape1 B"
       "rows H = hyper_rows (shape1 B) (rows B)"
    by blast
  define S where "S = np_dot H (np_T H)"
  obtain xadj adjncy ew where tri: "to_pymetis_format S = (xadj, adjncy, ew)"
    by (cases "to_pymetis_format S") blast
  let ?n = "shape1 B"
  have B: "length (rows B) = shape0 B" "\<forall>bc\<in>set (rows B). length bc = ?n"
    using assms(1) by (simp_all add: wf_array_def)
  have S: "wf_array S" "shape0 S = ?n" "shape1 S = ?n"
    using np_dot_T_wf[OF H(2)] H(3) by (simp_all add: S_def)
  have ent: "rows S ! i ! j = dot_int (rows H ! i) (rows H ! j)" if "i < ?n" "j < ?n" for i j
    using that H(2,3) by (simp add: S_def np_dot_T_entry)
  have runs: "rows S ! i ! j
              = int (card {r. r < shape0 B \<and> rows B ! r ! i = rows B ! r ! j \<and> rows B ! r ! i \<noteq> None})"
    if "i < ?n" "j < ?n" for i j
    using that B by (simp add: ent H(4) hyper_rows_dot)
  have edges: "rows S ! i ! j
               = int (card {c. c < shape1 H \<and> rows H ! i ! c = 1 \<and> rows H ! j ! c = 1})"
    if "i < ?n" "j < ?n" for i j
  proof -
    have len: "length (rows H ! i) = shape1 H" "length (rows H ! j) = shape1 H"
      using that H(2,3) by (simp_all add: wf_array_nth)
    have "\<forall>c<length (rows H ! i). (rows H ! i ! c = 0 \<or> rows H ! i ! c = 1)
            \<and> (rows H ! j ! c = 0 \<or> rows H ! j ! c = 1)"
      using that len hyper_rows_binary[of _ ?n _ "rows B"] by (simp add: H(4))
    then show ?thesis
      using len dot_int_binary[of "rows H ! i" "rows H ! j"] that by (simp add: ent)
  qed
  have sym: "rows S ! i ! j = rows S ! j ! i" if "i < ?n" "j < ?n" for i j
  proof -
    have "{r. r < shape0 B \<and> rows B ! r ! i = rows B ! r ! j \<and> rows B ! r ! i \<noteq> None}
          = {r. r < shape0 B \<and> rows B ! r ! j = rows B ! r ! i \<and> rows B ! r ! j \<noteq> None}"
      by (intro Collect_cong) metis
    then show ?thesis
      using that by (simp add: runs)
  qed
  have diag: "rows S ! i ! i = int (card {r. r < shape0 B \<and> rows B ! r ! i \<noteq> None})"
    if "i < ?n" for i
    using that by (simp add: runs)
  have lenS: "length (rows S) = ?n" "\<And>i. i < ?n \<Longrightarrow> length (rows S ! i) = ?n"
    using S by (simp_all add: wf_array_def)
  have csr: "csr_row xadj adjncy i = filter (\<lambda>j. rows S ! i ! j \<noteq> 0) [0..<?n]
           \<and> csr_row xadj ew i = map (\<lambda>j. rows S ! i ! j) (csr_row xadj adjncy i)
           \<and> (rows S ! i ! i \<noteq> 0 \<longrightarrow> i \<in> set (csr_row xadj adjncy i))"
    if "i < ?n" for i
    using that to_pymetis_format_rows(3,4)[OF tri, of i] lenS
    by (simp add: np_nonzero_def)
  have run: "cspa part_graph B nclass = part_graph nclass xadj adjncy (Some ew)"
    using tri by (simp add: cspa_def H(1) S_def[symmetric])
  show ?thesis
    using H(1) S S_def edges sym diag tri csr run
    by (intro exI[of _ H] exI[of _ S] exI[of _ xadj] exI[of _ adjncy] exI[of _ ew]) simp
qed

theorem cspa_similarity_witness:
  "wf_array ex_bcs \<and> 0 < shape0 ex_bcs \<and>
   (\<exists>H S xadj adjncy ew.
      create_hypergraph ex_bcs = Inr (Some H) \<and> S = np_dot H (np_T H)
    \<and> wf_array S \<and> shape0 S = shape1 ex_bcs \<and> shape1 S = shape1 ex_bcs
    \<and> (\<forall>i<shape1 ex_bcs. \<forall>j<shape1 ex_bcs.
          rows S ! i ! j = int (card {c. c < shape1 H \<and> rows H ! i ! c = 1 \<and> rows H ! j ! c = 1})
        \<and> rows S ! i ! j = rows S ! j ! i)
    \<and> (\<forall>i<shape1 ex_bcs. rows S ! i ! i = int (card {r. r < shape0 ex_bcs \<and> rows ex_bcs ! r ! i \<noteq> None}))
    \<and> to_pymetis_format S = (xadj, adjncy, ew)
    \<and> (\<forall>i<shape1 ex_bcs.
          csr_row xadj adjncy i = filter (\<lambda>j. rows S ! i ! j \<noteq> 0) [0..<shape1 ex_bcs]
        \<and> csr_row xadj ew i = map (\<lambda>j. rows S ! i ! j) (csr_row xadj adjncy i)
        \<and> (rows S ! i ! i \<noteq> 0 \<longrightarrow> i \<in> set (csr_row xadj adjncy i)))
    \<and> cspa part_zero ex_bcs 2 = part_zero 2 xadj adjncy (Some ew))"
proof -
  have h1: "wf_array ex_bcs"
    by (simp add: wf_array_def ex_bcs_def)
  have h2: "0 < shape0 ex_bcs"
    by (simp add: ex_bcs_def)
  show ?thesis
    using h1 h2 cspa_similarity[OF h1 h2, of part_zero 2] by (intro conjI)
qed

text \<open>
  Claim C5 as stated fails on the diagonal: in the example ensemble of two runs, object 0
  has no label in the second run, and its diagonal entry of \<open>S\<close> is 1, not 2.
\<close>

theorem cspa_diagonal_counterexample:
  "create_hypergraph ex_bcs = Inr (Some ex_H)
   \<and> rows (np_dot ex_H (np_T ex_H)) ! 0 ! 0 = 1 \<and> shape0 ex_bcs = 2"
  by code_simp

section \<open>Properties of hbgf\<close>

lemma hbgf_adjacency_rows:
  assumes "wf_array A"
  shows "shape0 (hbgf_adjacency A) = shape1 A + shape0 A"
    and "shape1 (hbgf_adjacency A) = shape1 A + shape0 A"
    and "length (rows (hbgf_adjacency A)) = shape1 A + shape0 A"
    and "a < shape1 A \<Longrightarrow> rows (hbgf_adjacency A) ! a = replicate (shape1 A) 0 @ column A a"
    and "i < shape0 A \<Longrightarrow> rows (hbgf_adjacency A) ! (shape1 A + i) = rows A ! i @ replicate (shape0 A) 0"
proof -
  let ?top = "map2 (@) (replicate (shape1 A) (replicate (shape1 A) (0::int))) (map (column A) [0..<shape1 A])"
  let ?bot = "map2 (@) (rows A) (replicate (shape0 A) (replicate (shape0 A) (0::int)))"
  have W: "rows (hbgf_adjacency A) = ?top @ ?bot"
    by (simp add: hbgf_adjacency_def Let_def np_vstack_def np_hstack_def np_zeros_def np_T_def)
  have len: "length ?top = shape1 A" "length ?bot = shape0 A"
    using assms by (simp_all add: wf_array_def)
  show "shape0 (hbgf_adjacency A) = shape1 A + shape0 A"
    by (simp add: hbgf_adjacency_def Let_def np_vstack_def np_hstack_def np_zeros_def np_T_def)
  show "shape1 (hbgf_adjacency A) = shape1 A + shape0 A"
    by (simp add: hbgf_adjacency_def Let_def np_vstack_def np_hstack_def np_zeros_def np_T_def)
  show "length (rows (hbgf_adjacency A)) = shape1 A + shape0 A"
    unfolding W using len by simp
  show "rows (hbgf_adjacency A) ! a = replicate (shape1 A) 0 @ column A a" if "a < shape1 A"
    unfolding W using that len by (simp add: nth_append)
  show "rows (hbgf_adjacency A) ! (shape1 A + i) = rows A ! i @ replicate (shape0 A) 0"
    if "i < shape0 A"
    unfolding W using that len assms by (simp add: nth_append wf_array_def)
qed

text \<open>
  Claim C7. For a base-clustering array with at least one run and incidence matrix \<open>H\<close> with
  \<open>C\<close> columns, \<open>hbgf\<close> builds the \<open>(C+N) \<times> (C+N)\<close> adjacency whose top-left \<open>C \<times> C\<close> and
  bottom-right \<open>N \<times> N\<close> blocks are zero and whose other two blocks are \<open>H\<^sup>T\<close> and \<open>H\<close>. It
  hands all \<open>C+N\<close> nodes to the partitioner without edge weights and returns the membership
  vector without its first \<open>C\<close> entries: when the partitioner answers with one entry per
  node, the result has length \<open>N\<close> and its entry \<open>i\<close> is the membership of node \<open>C+i\<close>.
\<close>

theorem hbgf_bipartite:
  assumes "wf_array B" "0 < shape0 B"
  shows "\<exists>H W xadj adjncy ew.
      create_hypergraph B = Inr (Some H) \<and> W = hbgf_adjacency H
    \<and> wf_array W \<and> shape0 W = shape1 H + shape1 B \<and> shape1 W = shape1 H + shape1 B
    \<and> (\<forall>a<shape1 H. \<forall>b<shape1 H. rows W ! a ! b = 0)
    \<and> (\<forall>i<shape1 B. \<forall>j<shape1 B. rows W ! (shape1 H + i) ! (shape1 H + j) = 0)
    \<and> (\<forall>a<shape1 H. \<forall>i<shape1 B.
          rows W ! a ! (shape1 H + i) = rows H ! i ! a
        \<and> rows W ! (shape1 H + i) ! a = rows H ! i ! a)
    \<and> to_pymetis_format W = (xadj, adjncy, ew)
    \<and> length xadj = shape1 H + shape1 B + 1
    \<and> hbgf part_graph B nclass
        = (case part_graph nclass xadj adjncy None of
             Inl e \<Rightarrow> Inl e
           | Inr membership \<Rightarrow> Inr (drop (shape1 H) membership))
    \<and> (\<forall>membership.
          part_graph nclass xadj adjncy None = Inr membership
          \<and> length membership = shape1 H + shape1 B
          \<longrightarrow> (\<exists>celabel. hbgf part_graph B nclass = Inr celabel
                \<and> length celabel = shape1 B
                \<and> (\<forall>i<shape1 B. celabel ! i = membership ! (shape1 H + i))))"
proof -
  from create_hypergraph_some[OF assms] obtain H where
    H: "create_hypergraph B = Inr (Some H)" "wf_array H" "shape0 H = shape1 B"
    by blast
  define W where "W = hbgf_adjacency H"
  obtain xadj adjncy ew where tri: "to_pymetis_format W = (xadj, adjncy, ew)"
    by (cases "to_pymetis_format W") blast
  let ?n = "shape1 B" and ?c = "shape1 H"
  note rw = hbgf_adjacency_rows[OF H(2), folded W_def, unfolded H(3)]
  have lenH: "length (rows H) = ?n" "\<And>i. i < ?n \<Longrightarrow> length (rows H ! i) = ?c"
    using H(2,3) by (simp_all add: wf_array_def)
  have col: "length (column H a) = ?n" "\<And>i. i < ?n \<Longrightarrow> column H a ! i = rows H ! i ! a" for a
    using lenH by (simp_all add: column_def)
  have wf: "wf_array W"
    unfolding wf_array_def
  proof (intro conjI ballI)
    show "length (rows W) = shape0 W" by (simp add: rw)
  next
    fix r assume "r \<in> set (rows W)"
    then obtain k where k: "k < ?c + ?n" "r = rows W ! k"
      by (auto simp: in_set_conv_nth rw)
    show "length r = shape1 W"
    proof (cases "k < ?c")
      case True
      then show ?thesis using k by (simp add: rw col)
    next
      case False
      then have "k = ?c + (k - ?c)" "k - ?c < ?n" using k by simp_all
      then show ?thesis using k rw(5)[of "k - ?c"] lenH by (simp add: rw(2))
    qed
  qed
  have tl: "rows W ! a ! b = 0" if "a < ?c" "b < ?c" for a b
    using that by (simp add: rw nth_append)
  have br: "rows W ! (?c + i) ! (?c + j) = 0" if "i < ?n" "j < ?n" for i j
    using that lenH by (simp add: rw nth_append)
  have off: "rows W ! a ! (?c + i) = rows H ! i ! a \<and> rows W ! (?c + i) ! a = rows H ! i ! a"
    if "a < ?c" "i < ?n" for a i
    using that lenH col by (simp add: rw nth_append)
  have nodes: "length xadj = ?c + ?n + 1"
    using to_pymetis_format_rows(1)[OF tri] by (simp add: rw)
  have run: "hbgf part_graph B nclass
        = (case part_graph nclass xadj adjncy None of
             Inl e \<Rightarrow> Inl e
           | Inr membership \<Rightarrow> Inr (drop ?c membership))"
    using tri by (simp add: hbgf_def H(1) W_def[symmetric] Let_def)
  have out: "\<exists>celabel. hbgf part_graph B nclass = Inr celabel
                \<and> length celabel = ?n
                \<and> (\<forall>i<?n. celabel ! i = membership ! (?c + i))"
    if "part_graph nclass xadj adjncy None = Inr membership \<and> length membership = ?c + ?n"
    for membership
    using that by (simp add: run)
  show ?thesis
    using H(1) W_def wf rw(1,2) tl br off tri nodes run out
    by (intro exI[of _ H] exI[of _ W] exI[of _ xadj] exI[of _ adjncy] exI[of _ ew]) simp
qed

theorem hbgf_bipartite_witness:
  "wf_array ex_bcs \<and> 0 < shape0 ex_bcs \<and>
   (\<exists>H W xadj adjncy ew.
      create_hypergraph ex_bcs = Inr (Some H) \<and> W = hbgf_adjacency H
    \<and> wf_array W \<and> shape0 W = shape1 H + shape1 ex_bcs \<and> shape1 W = shape1 H + shape1 ex_bcs
    \<and> (\<forall>a<shape1 H. \<forall>b<shape1 H. rows W ! a ! b = 0)
    \<and> (\<forall>i<shape1 ex_bcs. \<forall>j<shape1 ex_bcs. rows W ! (shape1 H + i) ! (shape1 H + j) = 0)
    \<and> (\<forall>a<shape1 H. \<forall>i<shape1 ex_bcs.
          rows W ! a ! (shape1 H + i) = rows H ! i ! a
        \<and> rows W ! (shape1 H + i) ! a = rows H ! i ! a)
    \<and> to_pymetis_format W = (xadj, adjncy, ew)
    \<and> length xadj = shape1 H + shape1 ex_bcs + 1
    \<and> hbgf part_zero ex_bcs 2
        = (case part_zero 2 xadj adjncy None of
             Inl e \<Rightarrow> Inl e
           | Inr membership \<Rightarrow> Inr (drop (shape1 H) membership))
    \<and> (\<forall>membership.
          part_zero 2 xadj adjncy None = Inr membership
          \<and> length membership = shape1 H + shape1 ex_bcs
          \<longrightarrow> (\<exists>celabel. hbgf part_zero ex_bcs 2 = Inr celabel
                \<and> length celabel = shape1 ex_bcs
                \<and> (\<forall>i<shape1 ex_bcs. celabel ! i = membership ! (shape1 H + i)))))"
proof -
  have h1: "wf_array ex_bcs"
    by (simp add: wf_array_def ex_bcs_def)
  have h2: "0 < shape0 ex_bcs"
    by (simp add: ex_bcs_def)
  show ?thesis
    using h1 h2 hbgf_bipartite[OF h1 h2, of part_zero 2] by (intro conjI)
qed

section \<open>Properties of create_connectivity_matrix\<close>

lemma sum_list_indicator:
  "(\<Sum>b\<leftarrow>bs. if P b then 1 else 0) = int (card {r. r < length bs \<and> P (bs ! r)})"
proof -
  have "(\<Sum>b\<leftarrow>bs. if P b then 1 else (0::int)) = (\<Sum>r<length bs. if P (bs ! r) then 1 else 0)"
    by (rule sum_list_nth_lessThan)
  also have "\<dots> = int (card ({..<length bs} \<inter> {r. P (bs ! r)}))"
    by (simp add: sum.If_cases)
  also have "{..<length bs} \<inter> {r. P (bs ! r)} = {r. r < length bs \<and> P (bs ! r)}"
    by auto
  finally show ?thesis .
qed

lemma comembership_rows_result:
  assumes "length pre = k" "length rest = length es"
  shows "comembership_rows (enumerate k es) bc (pre @ rest) = pre @ map (\<lambda>e. where_eq e bc) es"
  using assms
proof (induction es arbitrary: pre rest k)
  case Nil
  then show ?case by simp
next
  case (Cons e es)
  then obtain r rest' where rest: "rest = r # rest'" "length rest' = length es"
    by (cases rest) auto
  have "comembership_rows (enumerate (Suc k) es) bc ((pre @ [where_eq e bc]) @ rest')
        = (pre @ [where_eq e bc]) @ map (\<lambda>e. where_eq e bc) es"
    using Cons.prems rest by (intro Cons.IH) simp_all
  then show ?case
    using Cons.prems(1) rest by (simp add: list_update_append)
qed

lemma comembership_rows_all:
  assumes "length m = length bc"
  shows "comembership_rows (enumerate 0 bc) bc m = map (\<lambda>e. where_eq e bc) bc"
  using comembership_rows_result[of "[]" 0 m bc bc] assms by simp

lemma connectivity_loop_fst:
  assumes "\<forall>bc\<in>set bcs. length bc = n" "length M = n" "\<forall>r\<in>set M. length r = n" "length m = n"
  shows "fst (connectivity_loop bcs (M, m))
         = map (\<lambda>i. map (\<lambda>j. M ! i ! j + (\<Sum>bc\<leftarrow>bcs. if eq_nan (bc ! i) (bc ! j) then 1 else 0))
                  [0..<n]) [0..<n]"
  using assms
proof (induction bcs arbitrary: M m)
  case Nil
  then show ?case
    by (simp add: list_eq_iff_nth_eq)
next
  case (Cons bc bcs)
  let ?m = "map (\<lambda>e. where_eq e bc) bc"
  let ?M = "map2 (map2 (+)) M ?m"
  have len: "length bc = n" using Cons.prems(1) by simp
  have m': "comembership_rows (enumerate 0 bc) bc m = ?m"
    using Cons.prems(4) len by (intro comembership_rows_all) simp
  have rowlen: "length (M ! i) = n" if "i < n" for i
    using that Cons.prems(2,3) by simp
  have M'len: "length ?M = n" "length ?m = n"
    using Cons.prems(2) len by simp_all
  have M'rows: "\<forall>r\<in>set ?M. length r = n"
  proof
    fix r assume "r \<in> set ?M"
    then obtain i where "i < n" "r = ?M ! i"
      using M'len(1) by (metis in_set_conv_nth)
    then show "length r = n"
      using Cons.prems(2) len rowlen by (simp add: where_eq_def)
  qed
  have ent: "?M ! i ! j = M ! i ! j + (if eq_nan (bc ! i) (bc ! j) then 1 else 0)"
    if "i < n" "j < n" for i j
    using that Cons.prems(2) len rowlen by (simp add: where_eq_def)
  have "fst (connectivity_loop bcs (?M, ?m))
        = map (\<lambda>i. map (\<lambda>j. ?M ! i ! j + (\<Sum>b\<leftarrow>bcs. if eq_nan (b ! i) (b ! j) then 1 else 0))
                 [0..<n]) [0..<n]"
    using Cons.prems(1) M'len M'rows by (intro Cons.IH) simp_all
  also have "\<dots> = map (\<lambda>i. map (\<lambda>j. M ! i ! j
                 + (\<Sum>b\<leftarrow>bc # bcs. if eq_nan (b ! i) (b ! j) then 1 else 0)) [0..<n]) [0..<n]"
    using ent by (intro map_cong refl) (simp add: add.assoc)
  finally show ?case
    by (simp add: m' Let_def)
qed





lemma eq_nan_self: "eq_nan a a \<longleftrightarrow> a \<noteq> None"
  by (simp add: eq_nan_def split: option.splits)

lemma connectivity_rows:
  assumes "wf_array B"
  shows "create_connectivity_matrix rnd B
         = \<lparr>shape0 = shape1 B, shape1 = shape1 B,
            rows = map (\<lambda>i. map (\<lambda>j. true_divide rnd (int (co_count B i j)) (shape0 B))
                                 [0..<shape1 B]) [0..<shape1 B]\<rparr>"
proof -
  let ?n = "shape1 B"
  let ?Z = "replicate ?n (replicate ?n (0::int))"
  have B: "length (rows B) = shape0 B" "\<forall>bc\<in>set (rows B). length bc = ?n"
    using assms by (simp_all add: wf_array_def)
  have "fst (connectivity_loop (rows B) (?Z, ?Z))
        = map (\<lambda>i. map (\<lambda>j. ?Z ! i ! j
              + (\<Sum>bc\<leftarrow>rows B. if eq_nan (bc ! i) (bc ! j) then 1 else 0)) [0..<?n]) [0..<?n]"
    using B(2) by (intro connectivity_loop_fst) simp_all
  also have "\<dots> = map (\<lambda>i. map (\<lambda>j. int (co_count B i j)) [0..<?n]) [0..<?n]"
    using B(1) by (intro map_cong refl) (simp add: sum_list_indicator co_count_def)
  finally have "fst (connectivity_loop (rows B) (?Z, ?Z))
                = map (\<lambda>i. map (\<lambda>j. int (co_count B i j)) [0..<?n]) [0..<?n]" .
  then show ?thesis
    by (simp add: create_connectivity_matrix_def np_zeros_def Let_def case_prod_beta comp_def)
qed


lemma connectivity_entry:
  assumes "wf_array B" "0 < shape0 B" "i < shape1 B" "j < shape1 B"
  shows "rows (create_connectivity_matrix rnd B) ! i ! j
         = Fin (rnd (of_nat (co_count B i j) / of_nat (shape0 B)))"
  using assms by (simp add: connectivity_rows true_divide_def)

lemma connectivity_wf:
  assumes "wf_array B"
  shows "wf_array (create_connectivity_matrix rnd B)"
    and "shape0 (create_connectivity_matrix rnd B) = shape1 B"
    and "shape1 (create_connectivity_matrix rnd B) = shape1 B"
  using assms by (auto simp: connectivity_rows wf_array_def)


lemma co_count_diag: "co_count B i i = card {r. r < shape0 B \<and> rows B ! r ! i \<noteq> None}"
  by (simp add: co_count_def eq_nan_self)



text \<open>
  Claim C2, as amended. For a base-clustering array with \<open>R \<ge> 1\<close> runs, the diagonal entry of
  object \<open>i\<close> is the float quotient of the number of runs that gave \<open>i\<close> a label by \<open>R\<close>; it is
  exactly 1 for every object that has a label in every run.
\<close>

theorem connectivity_matrix_diagonal:
  assumes "wf_array B" "0 < shape0 B" "rounding_ok rnd"
  shows "\<forall>i<shape1 B.
      rows (create_connectivity_matrix rnd B) ! i ! i
        = Fin (rnd (of_nat (card {r. r < shape0 B \<and> rows B ! r ! i \<noteq> None}) / of_nat (shape0 B)))
    \<and> ((\<forall>r<shape0 B. rows B ! r ! i \<noteq> None)
         \<longrightarrow> rows (create_connectivity_matrix rnd B) ! i ! i = Fin 1)"
proof (intro allI impI conjI)
  fix i assume i: "i < shape1 B"
  show ent: "rows (create_connectivity_matrix rnd B) ! i ! i
        = Fin (rnd (of_nat (card {r. r < shape0 B \<and> rows B ! r ! i \<noteq> None}) / of_nat (shape0 B)))"
    using assms(1,2) i by (simp add: connectivity_entry co_count_diag)
  assume all: "\<forall>r<shape0 B. rows B ! r ! i \<noteq> None"
  then have "{r. r < shape0 B \<and> rows B ! r ! i \<noteq> None} = {..<shape0 B}"
    by auto
  then have "card {r. r < shape0 B \<and> rows B ! r ! i \<noteq> None} = shape0 B"
    by simp
  moreover have "rnd 1 = 1"
    using assms(3) by (simp add: rounding_ok_def)
  ultimately show "rows (create_connectivity_matrix rnd B) ! i ! i = Fin 1"
    using assms(2) by (simp add: ent)
qed




theorem connectivity_matrix_diagonal_witness:
  "wf_array ex_bcs \<and> 0 < shape0 ex_bcs \<and> rounding_ok (\<lambda>x. x)
   \<and> rows (create_connectivity_matrix (\<lambda>x. x) ex_bcs) ! 1 ! 1 = Fin 1"
proof -
  have h1: "wf_array ex_bcs"
    by (simp add: wf_array_def ex_bcs_def)
  have h2: "0 < shape0 ex_bcs"
    by (simp add: ex_bcs_def)
  have h3: "rounding_ok (\<lambda>x. x)"
    by (simp add: rounding_ok_def)
  have h4: "\<forall>r<shape0 ex_bcs. rows ex_bcs ! r ! 1 \<noteq> None"
    by (simp add: ex_bcs_def less_Suc_eq numeral_2_eq_2)
  have "1 < shape1 ex_bcs"
    by (simp add: ex_bcs_def)
  with connectivity_matrix_diagonal[OF h1 h2 h3] h4
  have "rows (create_connectivity_matrix (\<lambda>x. x) ex_bcs) ! 1 ! 1 = Fin 1"
    by blast
  with h1 h2 h3 show ?thesis
    by (intro conjI)
qed

text \<open>
  Claim C2 as stated fails: in the example ensemble of two runs, object 0 has no label in
  the second run, NaN is not equal to itself, and the diagonal entry of object 0 is
  \<open>1/2\<close>.
\<close>

theorem connectivity_matrix_diagonal_counterexample:
  "rows (create_connectivity_matrix (\<lambda>x. x) ex_bcs) ! 0 ! 0 = Fin (1 / 2)
   \<and> rows ex_bcs ! 1 ! 0 = None"
  by code_simp

section \<open>Properties of mcla\<close>

lemma astype_bool_wf:
  assumes "wf_array H"
  shows "wf_array (astype_bool H)" "shape0 (astype_bool H) = shape0 H"
    "shape1 (astype_bool H) = shape1 H"
    "i < shape0 H \<Longrightarrow> a < shape1 H \<Longrightarrow> rows (astype_bool H) ! i ! a \<longleftrightarrow> rows H ! i ! a \<noteq> 0"
  using assms by (auto simp: astype_bool_def wf_array_def)

lemma jaccard_self:
  assumes "rnd 0 = 0"
  shows "jaccard rnd u u = 0"
proof -
  have "filter (\<lambda>(x, y). x \<noteq> y) (zip u u) = []"
    by (auto simp: filter_empty_conv in_set_zip)
  then show ?thesis
    using assms by (simp add: jaccard_def Let_def)
qed

lemma similarity_values_entry:
  assumes "wf_array Hb"
  shows "wf_array (similarity_values rnd Hb)"
    and "shape0 (similarity_values rnd Hb) = shape1 Hb"
    and "shape1 (similarity_values rnd Hb) = shape1 Hb"
    and "a < shape1 Hb \<Longrightarrow> b < shape1 Hb \<Longrightarrow>
         rows (similarity_values rnd Hb) ! a ! b
         = astype_int (rnd (rnd (1 - jaccard rnd (column Hb a) (column Hb b)) * 1000))"
  by (auto simp: similarity_values_def similarity_of_distances_def jaccard_matrix_def np_T_def
        wf_array_def)

lemma mcla_similarity_cases:
  "0 < shape1 Hb \<Longrightarrow> mcla_similarity rnd Hb = Inr (similarity_values rnd Hb)"
  "shape1 Hb = 0 \<Longrightarrow> mcla_similarity rnd Hb = Inl (ValueError ''Found array with 0 sample(s)'')"
  by (simp_all add: mcla_similarity_def pairwise_distances_jaccard_def similarity_values_def
        np_T_def)

lemma astype_int_of_int: "astype_int (of_int n) = n"
  by (simp add: astype_int_def)

lemma similarity_values_diag:
  assumes "wf_array Hb" "rounding_ok rnd" "a < shape1 Hb"
  shows "rows (similarity_values rnd Hb) ! a ! a = 1000"
proof -
  have r: "rnd 0 = 0" "rnd 1 = 1" "rnd 1000 = 1000"
    using assms(2) by (simp_all add: rounding_ok_def)
  have "astype_int (of_int 1000) = 1000"
    by (rule astype_int_of_int)
  then have "astype_int 1000 = 1000" by simp
  then show ?thesis
    using assms(1,3) r by (simp add: similarity_values_entry jaccard_self)
qed

lemma csr_self_loop:
  assumes "to_pymetis_format S = (xadj, adjncy, ew)" "wf_array S" "shape0 S = n" "shape1 S = n"
    "a < n" "rows S ! a ! a \<noteq> 0"
  shows "\<exists>p<length (csr_row xadj adjncy a).
           csr_row xadj adjncy a ! p = a \<and> csr_row xadj ew a ! p = rows S ! a ! a"
proof -
  have len: "length (rows S) = n" "length (rows S ! a) = n"
    using assms(2-5) by (simp_all add: wf_array_def)
  have adj: "csr_row xadj adjncy a = np_nonzero (rows S ! a)"
    and w: "csr_row xadj ew a = map (\<lambda>j. rows S ! a ! j) (np_nonzero (rows S ! a))"
    using to_pymetis_format_rows(3,4)[OF assms(1), of a] assms(5) len by simp_all
  have "a \<in> set (np_nonzero (rows S ! a))"
    using assms(5,6) len by (simp add: np_nonzero_set)
  then obtain p where p: "p < length (np_nonzero (rows S ! a))" "np_nonzero (rows S ! a) ! p = a"
    by (auto simp: in_set_conv_nth)
  show ?thesis
    using p by (intro exI[of _ p]) (simp add: adj w)
qed

lemma column_astype_bool:
  assumes "wf_array H" "a < shape1 H"
  shows "column (astype_bool H) a = map (\<lambda>i. rows H ! i ! a \<noteq> 0) [0..<shape0 H]"
  using assms by (auto simp: column_def astype_bool_def wf_array_def list_eq_iff_nth_eq)

lemma jaccard_sets:
  assumes "wf_array H" "a < shape1 H" "b < shape1 H"
  shows "jaccard rnd (column (astype_bool H) a) (column (astype_bool H) b)
         = jaccard_distance rnd (hyperedge H a) (hyperedge H b)"
proof -
  let ?n = "shape0 H"
  let ?u = "map (\<lambda>i. rows H ! i ! a \<noteq> 0) [0..<?n]" and ?v = "map (\<lambda>i. rows H ! i ! b \<noteq> 0) [0..<?n]"
  let ?A = "hyperedge H a" and ?B = "hyperedge H b"
  have fin: "finite (?A \<union> ?B)"
    by (simp add: hyperedge_def)
  have num: "length (filter (\<lambda>(x, y). x \<noteq> y) (zip ?u ?v)) = card ((?A \<union> ?B) - (?A \<inter> ?B))"
  proof -
    have "{i. i < length (zip ?u ?v) \<and> (\<lambda>(x, y). x \<noteq> y) (zip ?u ?v ! i)} = (?A \<union> ?B) - (?A \<inter> ?B)"
      by (auto simp: hyperedge_def)
    then show ?thesis
      by (simp only: length_filter_conv_card)
  qed
  have den: "length (filter (\<lambda>(x, y). x \<or> y) (zip ?u ?v)) = card (?A \<union> ?B)"
  proof -
    have "{i. i < length (zip ?u ?v) \<and> (\<lambda>(x, y). x \<or> y) (zip ?u ?v ! i)} = ?A \<union> ?B"
      by (auto simp: hyperedge_def)
    then show ?thesis
      by (simp only: length_filter_conv_card)
  qed
  have "card (?A \<union> ?B) = 0 \<longleftrightarrow> ?A \<union> ?B = {}"
    using fin by (rule card_0_eq)
  then show ?thesis
    unfolding jaccard_def jaccard_distance_def column_astype_bool[OF assms(1,2)]
      column_astype_bool[OF assms(1,3)] Let_def num den
    by simp
qed

lemma accumulate_result:
  assumes "wf_array Hb" "shape0 Hb = n"
    and "length mc = n" "\<forall>r\<in>set mc. length r = nclass"
    and "k0 + length ms \<le> shape1 Hb" "\<forall>v\<in>set ms. v < nclass"
  shows "accumulate nclass (enumerate k0 ms) Hb mc
         = Inr (map (\<lambda>i. map (\<lambda>k. mc ! i ! k
                  + (\<Sum>e\<leftarrow>enumerate k0 ms. if snd e = k \<and> rows Hb ! i ! fst e then 1 else 0))
                            [0..<nclass]) [0..<n])"
  using assms(3-6)
proof (induction ms arbitrary: k0 mc)
  case Nil
  have "mc = map (\<lambda>i. map (\<lambda>k. mc ! i ! k) [0..<nclass]) [0..<n]"
    using Nil.prems(1,2) by (simp add: list_eq_iff_nth_eq)
  then show ?case by simp
next
  case (Cons v ms)
  define col where "col = column Hb k0"
  define mc' where "mc' = map2 (\<lambda>row h. row[v := row ! v + (if h then 1 else 0)]) mc col"
  have v: "v < nclass" and k0: "k0 < shape1 Hb"
    using Cons.prems(3,4) by simp_all
  have lenH: "length (rows Hb) = n"
    using assms(1,2) by (simp add: wf_array_def)
  have col: "length col = n" "\<And>i. i < n \<Longrightarrow> col ! i = rows Hb ! i ! k0"
    using lenH by (simp_all add: col_def column_def)
  have rowlen: "length (mc ! i) = nclass" if "i < n" for i
    using that Cons.prems(1,2) by simp
  have len: "length mc' = n"
    using Cons.prems(1) col(1) by (simp add: mc'_def)
  have row: "mc' ! i = (mc ! i)[v := mc ! i ! v + (if rows Hb ! i ! k0 then 1 else 0)]" if "i < n" for i
    using that Cons.prems(1) col by (simp add: mc'_def)
  have rows: "\<forall>r\<in>set mc'. length r = nclass"
  proof
    fix r assume "r \<in> set mc'"
    then obtain i where "i < n" "r = mc' ! i"
      using len by (metis in_set_conv_nth)
    then show "length r = nclass"
      using rowlen by (simp add: row)
  qed
  have ent: "mc' ! i ! k = mc ! i ! k + (if v = k \<and> rows Hb ! i ! k0 then 1 else 0)"
    if "i < n" "k < nclass" for i k
    using that rowlen[of i] by (simp add: row nth_list_update)
  have IH: "accumulate nclass (enumerate (Suc k0) ms) Hb mc'
        = Inr (map (\<lambda>i. map (\<lambda>k. mc' ! i ! k
                 + (\<Sum>e\<leftarrow>enumerate (Suc k0) ms. if snd e = k \<and> rows Hb ! i ! fst e then 1 else 0))
                           [0..<nclass]) [0..<n])"
    using Cons.prems(3,4) len rows by (intro Cons.IH) simp_all
  have eq: "map (\<lambda>i. map (\<lambda>k. mc' ! i ! k
                 + (\<Sum>e\<leftarrow>enumerate (Suc k0) ms. if snd e = k \<and> rows Hb ! i ! fst e then 1 else 0))
                           [0..<nclass]) [0..<n]
         = map (\<lambda>i. map (\<lambda>k. mc ! i ! k
                 + (\<Sum>e\<leftarrow>enumerate k0 (v # ms). if snd e = k \<and> rows Hb ! i ! fst e then 1 else 0))
                           [0..<nclass]) [0..<n]"
  proof (intro map_cong refl)
    fix i k assume "i \<in> set [0..<n]" "k \<in> set [0..<nclass]"
    then have "i < n" "k < nclass" by simp_all
    then show "mc' ! i ! k
                 + (\<Sum>e\<leftarrow>enumerate (Suc k0) ms. if snd e = k \<and> rows Hb ! i ! fst e then 1 else 0)
         = mc ! i ! k
                 + (\<Sum>e\<leftarrow>enumerate k0 (v # ms). if snd e = k \<and> rows Hb ! i ! fst e then 1 else 0)"
      by (simp add: ent)
  qed
  have "accumulate nclass (enumerate k0 (v # ms)) Hb mc
        = accumulate nclass (enumerate (Suc k0) ms) Hb mc'"
    using v k0 by (simp add: mc'_def col_def)
  then show ?case
    by (simp only: IH eq)
qed


lemma enumerate_indicator:
  "(\<Sum>e\<leftarrow>enumerate 0 ms. if P (fst e) (snd e) then 1 else 0)
   = int (card {a. a < length ms \<and> P a (ms ! a)})"
proof -
  have "{r. r < length (enumerate 0 ms) \<and> P (fst (enumerate 0 ms ! r)) (snd (enumerate 0 ms ! r))}
        = {a. a < length ms \<and> P a (ms ! a)}"
    by (auto simp: nth_enumerate_eq)
  then show ?thesis
    using sum_list_indicator[of "\<lambda>e. P (fst e) (snd e)" "enumerate 0 ms"] by simp
qed

lemma accumulate_counts:
  assumes "wf_array H" "shape0 H = n" "length membership = shape1 H" "\<forall>v\<in>set membership. v < nclass"
  shows "accumulate nclass (enumerate 0 membership) (astype_bool H) (rows (np_zeros n nclass))
         = Inr (map (\<lambda>i. map (\<lambda>k. int (meta_count H membership i k)) [0..<nclass]) [0..<n])"
proof -
  let ?Hb = "astype_bool H"
  have "accumulate nclass (enumerate 0 membership) ?Hb (rows (np_zeros n nclass))
        = Inr (map (\<lambda>i. map (\<lambda>k. rows (np_zeros n nclass) ! i ! k
             + (\<Sum>e\<leftarrow>enumerate 0 membership. if snd e = k \<and> rows ?Hb ! i ! fst e then 1 else 0))
                            [0..<nclass]) [0..<n])"
    using assms astype_bool_wf(1-3)[OF assms(1)]
    by (intro accumulate_result) (simp_all add: np_zeros_def)
  also have "\<dots> = Inr (map (\<lambda>i. map (\<lambda>k. int (meta_count H membership i k)) [0..<nclass]) [0..<n])"
  proof (intro arg_cong[of _ _ Inr] map_cong refl)
    fix i k assume "i \<in> set [0..<n]" "k \<in> set [0..<nclass]"
    then have i: "i < shape0 H" and k: "k < nclass" using assms(2) by simp_all
    have "{a. a < length membership \<and> membership ! a = k \<and> rows ?Hb ! i ! a}
          = {a. a < shape1 H \<and> membership ! a = k \<and> rows H ! i ! a \<noteq> 0}"
      using astype_bool_wf(4)[OF assms(1) i] assms(3) by auto
    then have "(\<Sum>e\<leftarrow>enumerate 0 membership. if snd e = k \<and> rows ?Hb ! i ! fst e then 1 else 0)
          = int (meta_count H membership i k)"
      using enumerate_indicator[of "\<lambda>a v. v = k \<and> rows ?Hb ! i ! a" membership]
      by (simp add: meta_count_def)
    then show "rows (np_zeros n nclass) ! i ! k
             + (\<Sum>e\<leftarrow>enumerate 0 membership. if snd e = k \<and> rows ?Hb ! i ! fst e then 1 else 0)
             = int (meta_count H membership i k)"
      using i k assms(2) by (simp add: np_zeros_def)
  qed
  finally show ?thesis .
qed

lemma tied_max_iff:
  assumes "k < length v"
  shows "v ! k = Max (set v) \<longleftrightarrow> (\<forall>k'<length v. v ! k' \<le> v ! k)"
proof
  assume "v ! k = Max (set v)"
  then show "\<forall>k'<length v. v ! k' \<le> v ! k"
    by (simp add: Max_ge)
next
  assume a: "\<forall>k'<length v. v ! k' \<le> v ! k"
  have "v ! k \<in> set v" using assms by simp
  moreover have "\<forall>x\<in>set v. x \<le> v ! k"
    using a by (auto simp: in_set_conv_nth)
  ultimately show "v ! k = Max (set v)"
    by (intro Max_eqI[symmetric]) simp_all
qed

lemma tied_max_nonempty:
  assumes "v \<noteq> []"
  shows "tied_max v \<noteq> []"
proof -
  have "Max (set v) \<in> set v"
    using assms by (intro Max_in) simp_all
  then obtain k where "k < length v" "v ! k = Max (set v)"
    by (auto simp: in_set_conv_nth)
  then have "k \<in> set (tied_max v)"
    by (simp add: tied_max_def)
  then show ?thesis by auto
qed

lemma tied_max_counts:
  "tied_max (map (\<lambda>k. int (meta_count H membership i k)) [0..<nclass])
   = tied_clusters H membership nclass i"
proof -
  let ?v = "map (\<lambda>k. int (meta_count H membership i k)) [0..<nclass]"
  have "filter (\<lambda>k. ?v ! k = Max (set ?v)) [0..<nclass]
        = filter (\<lambda>k. \<forall>k'<nclass. meta_count H membership i k' \<le> meta_count H membership i k) [0..<nclass]"
  proof (rule filter_cong[OF refl])
    fix k assume "k \<in> set [0..<nclass]"
    then have k: "k < length ?v" by simp
    show "(?v ! k = Max (set ?v))
          = (\<forall>k'<nclass. meta_count H membership i k' \<le> meta_count H membership i k)"
      unfolding tied_max_iff[OF k] using k by simp
  qed
  then show ?thesis
    by (simp add: tied_max_def tied_clusters_def)
qed

lemma draw_states_length: "length (draw_states choice g vs) = length vs"
  by (induction vs arbitrary: g) simp_all

lemma draw_states_step:
  "vs \<noteq> [] \<Longrightarrow> draw_states choice g vs ! 0 = g"
  "Suc i < length vs \<Longrightarrow>
     draw_states choice g vs ! Suc i
     = snd (choice (draw_states choice g vs ! i) (tied_max (vs ! i)))"
proof -
  show "vs \<noteq> [] \<Longrightarrow> draw_states choice g vs ! 0 = g"
    by (cases vs) simp_all
  show "Suc i < length vs \<Longrightarrow>
     draw_states choice g vs ! Suc i
     = snd (choice (draw_states choice g vs ! i) (tied_max (vs ! i)))"
  proof (induction vs arbitrary: g i)
    case Nil
    then show ?case by simp
  next
    case (Cons v vs)
    show ?case
    proof (cases i)
      case 0
      with Cons.prems show ?thesis by (cases vs) simp_all
    next
      case (Suc j)
      with Cons.prems Cons.IH[of j] show ?thesis by simp
    qed
  qed
qed

lemma choose_each_result:
  assumes "\<forall>v\<in>set vs. v \<noteq> []"
  shows "\<exists>ks g'. choose_each choice g vs = Inr (ks, g') \<and> length ks = length vs
           \<and> (\<forall>i<length vs. ks ! i = fst (choice (draw_states choice g vs ! i) (tied_max (vs ! i))))"
  using assms
proof (induction vs arbitrary: g)
  case Nil
  then show ?case by simp
next
  case (Cons v vs)
  obtain k g1 where c: "choice g (tied_max v) = (k, g1)"
    by (cases "choice g (tied_max v)") blast
  from Cons.IH[of g1] Cons.prems obtain ks g' where
    ks: "choose_each choice g1 vs = Inr (ks, g')" "length ks = length vs"
        "\<forall>i<length vs. ks ! i = fst (choice (draw_states choice g1 vs ! i) (tied_max (vs ! i)))"
    by auto
  have "choose_each choice g (v # vs) = Inr (k # ks, g')"
    using Cons.prems c ks(1) by simp
  moreover have "\<forall>i<length (v # vs).
      (k # ks) ! i = fst (choice (draw_states choice g (v # vs) ! i) (tied_max ((v # vs) ! i)))"
  proof (intro allI impI)
    fix i assume "i < length (v # vs)"
    then show "(k # ks) ! i = fst (choice (draw_states choice g (v # vs) ! i) (tied_max ((v # vs) ! i)))"
      using c ks(3) by (cases i) simp_all
  qed
  ultimately show ?case
    using ks(2) by (intro exI[of _ "k # ks"] exI[of _ g']) simp
qed

lemma hypergraph_no_column:
  assumes "wf_array B" "0 < shape0 B" "create_hypergraph B = Inr (Some H)"
  shows "shape1 H = 0 \<longleftrightarrow> all_missing B"
proof -
  from create_hypergraph_some[OF assms(1,2)] assms(3)
  have cols: "shape1 H = sum_list (map num_labels (rows B))"
    by auto
  have "num_labels bc = 0 \<longleftrightarrow> (\<forall>e\<in>set bc. e = None)" for bc :: "'a option list"
  proof -
    have "num_labels bc = 0 \<longleftrightarrow> {v. Some v \<in> set bc} = {}"
      unfolding num_labels_def using finite_labels[of bc] by (rule card_0_eq)
    also have "\<dots> \<longleftrightarrow> (\<forall>e\<in>set bc. e = None)"
      by (metis (mono_tags, lifting) Collect_empty_eq not_Some_eq)
    finally show ?thesis .
  qed
  then show ?thesis
    by (simp add: cols all_missing_def)
qed

lemma mcla_unfold:
  assumes "create_hypergraph B = Inr (Some H)"
    and "mcla_similarity rnd (astype_bool H) = Inr S"
    and "to_pymetis_format S = (xadj, adjncy, ew)"
  shows "mcla part_graph rnd choice g B nclass
         = (case part_graph nclass xadj adjncy (Some ew) of
              Inl e \<Rightarrow> Inl e
            | Inr membership \<Rightarrow> mcla_assign choice g (astype_bool H) (shape1 B) nclass membership)"
  using assms by (simp add: mcla_def mcla_partition_def Let_def split: sum.splits)

lemma mcla_all_missing:
  assumes "wf_array B" "0 < shape0 B" "all_missing B"
  shows "mcla part_graph rnd choice g B nclass = Inl (ValueError ''Found array with 0 sample(s)'')"
proof -
  from create_hypergraph_some[OF assms(1,2)] obtain H where
    H: "create_hypergraph B = Inr (Some H)" "wf_array H"
    by blast
  have "shape1 (astype_bool H) = 0"
    using hypergraph_no_column[OF assms(1,2) H(1)] assms(3) astype_bool_wf(3)[OF H(2)] by simp
  then have "mcla_similarity rnd (astype_bool H) = Inl (ValueError ''Found array with 0 sample(s)'')"
    by (rule mcla_similarity_cases(2))
  then show ?thesis
    using H(1) by (simp add: mcla_def mcla_partition_def Let_def)
qed

lemma mcla_edges_aux:
  assumes "wf_array B" "0 < shape0 B" "rounding_ok rnd" "\<not> all_missing B"
  shows "\<exists>H S xadj adjncy ew.
          create_hypergraph B = Inr (Some H)
        \<and> mcla_similarity rnd (astype_bool H) = Inr S
        \<and> to_pymetis_format S = (xadj, adjncy, ew)
        \<and> (\<forall>a<shape1 H.
              jaccard rnd (column (astype_bool H) a) (column (astype_bool H) a) = 0
            \<and> rows S ! a ! a = 1000
            \<and> (\<exists>p<length (csr_row xadj adjncy a).
                  csr_row xadj adjncy a ! p = a \<and> csr_row xadj ew a ! p = 1000))
        \<and> mcla part_graph rnd choice g B nclass
            = (case part_graph nclass xadj adjncy (Some ew) of
                 Inl e \<Rightarrow> Inl e
               | Inr membership \<Rightarrow>
                   mcla_assign choice g (astype_bool H) (shape1 B) nclass membership)"
proof -
  from create_hypergraph_some[OF assms(1,2)] obtain H where
    H: "create_hypergraph B = Inr (Some H)" "wf_array H"
    by blast
  let ?Hb = "astype_bool H"
  have Hb: "wf_array ?Hb" "shape1 ?Hb = shape1 H"
    using astype_bool_wf[OF H(2)] by simp_all
  have cols: "0 < shape1 H"
    using hypergraph_no_column[OF assms(1,2) H(1)] assms(4) by simp
  define S where "S = similarity_values rnd ?Hb"
  have sim: "mcla_similarity rnd ?Hb = Inr S"
    unfolding S_def using cols Hb(2) by (intro mcla_similarity_cases(1)) simp
  obtain xadj adjncy ew where tri: "to_pymetis_format S = (xadj, adjncy, ew)"
    by (cases "to_pymetis_format S") blast
  have S: "wf_array S" "shape0 S = shape1 H" "shape1 S = shape1 H"
    using similarity_values_entry(1-3)[OF Hb(1), of rnd] Hb(2) by (simp_all add: S_def)
  have r0: "rnd 0 = 0"
    using assms(3) by (simp add: rounding_ok_def)
  have diag: "rows S ! a ! a = 1000" if "a < shape1 H" for a
    using that Hb assms(3) by (simp add: S_def similarity_values_diag)
  have loop: "\<exists>p<length (csr_row xadj adjncy a).
              csr_row xadj adjncy a ! p = a \<and> csr_row xadj ew a ! p = 1000"
    if "a < shape1 H" for a
    using csr_self_loop[OF tri S that] diag[OF that] by simp
  have run: "mcla part_graph rnd choice g B nclass
        = (case part_graph nclass xadj adjncy (Some ew) of
             Inl e \<Rightarrow> Inl e
           | Inr membership \<Rightarrow> mcla_assign choice g ?Hb (shape1 B) nclass membership)"
    using H(1) sim tri by (rule mcla_unfold)
  have self: "jaccard rnd u u = 0" for u
    using r0 by (rule jaccard_self)
  have per: "\<forall>a<shape1 H.
          jaccard rnd (column (astype_bool H) a) (column (astype_bool H) a) = 0
        \<and> rows S ! a ! a = 1000
        \<and> (\<exists>p<length (csr_row xadj adjncy a).
              csr_row xadj adjncy a ! p = a \<and> csr_row xadj ew a ! p = 1000)"
    using self diag loop by blast
  show ?thesis
    by (intro exI[of _ H] exI[of _ S] exI[of _ xadj] exI[of _ adjncy] exI[of _ ew]
          conjI H(1) sim tri per run)
qed

text \<open>
  Claim C10. In \<open>mcla\<close>, for a base-clustering array with at least one run, the Jaccard
  distance of every hyperedge with itself is 0, so its self-similarity is \<open>(1 - 0) \<cdot> 1000\<close>,
  truncated, that is 1000. The conversion to the triple keeps every non-zero entry, so every
  hyperedge node appears in its own neighbour list with weight 1000, and this triple is what
  the partitioner is called with. When no run has given any label there is no hyperedge,
  and \<open>mcla\<close> ends with the ValueError of the distance routine.
\<close>

theorem mcla_self_edges:
  assumes "wf_array B" "0 < shape0 B" "rounding_ok rnd"
  shows "(\<exists>H. create_hypergraph B = Inr (Some H) \<and> (shape1 H = 0 \<longleftrightarrow> all_missing B))
    \<and> (all_missing B \<longrightarrow> mcla part_graph rnd choice g B nclass = Inl (ValueError ''Found array with 0 sample(s)''))
    \<and> (\<not> all_missing B \<longrightarrow>
         (\<exists>H S xadj adjncy ew.
          create_hypergraph B = Inr (Some H)
        \<and> mcla_similarity rnd (astype_bool H) = Inr S
        \<and> to_pymetis_format S = (xadj, adjncy, ew)
        \<and> (\<forall>a<shape1 H.
              jaccard rnd (column (astype_bool H) a) (column (astype_bool H) a) = 0
            \<and> rows S ! a ! a = 1000
            \<and> (\<exists>p<length (csr_row xadj adjncy a).
                  csr_row xadj adjncy a ! p = a \<and> csr_row xadj ew a ! p = 1000))
        \<and> mcla part_graph rnd choice g B nclass
            = (case part_graph nclass xadj adjncy (Some ew) of
                 Inl e \<Rightarrow> Inl e
               | Inr membership \<Rightarrow>
                   mcla_assign choice g (astype_bool H) (shape1 B) nclass membership)))"
proof (intro conjI impI)
  from create_hypergraph_some[OF assms(1,2)] obtain H where
    H: "create_hypergraph B = Inr (Some H)"
    by blast
  show "\<exists>H. create_hypergraph B = Inr (Some H) \<and> (shape1 H = 0 \<longleftrightarrow> all_missing B)"
    by (rule exI[of _ H], rule conjI[OF H hypergraph_no_column[OF assms(1,2) H]])
  show "mcla part_graph rnd choice g B nclass = Inl (ValueError ''Found array with 0 sample(s)'')"
    if "all_missing B"
    using assms(1,2) that by (rule mcla_all_missing)
  show "\<exists>H S xadj adjncy ew.
          create_hypergraph B = Inr (Some H)
        \<and> mcla_similarity rnd (astype_bool H) = Inr S
        \<and> to_pymetis_format S = (xadj, adjncy, ew)
        \<and> (\<forall>a<shape1 H.
              jaccard rnd (column (astype_bool H) a) (column (astype_bool H) a) = 0
            \<and> rows S ! a ! a = 1000
            \<and> (\<exists>p<length (csr_row xadj adjncy a).
                  csr_row xadj adjncy a ! p = a \<and> csr_row xadj ew a ! p = 1000))
        \<and> mcla part_graph rnd choice g B nclass
            = (case part_graph nclass xadj adjncy (Some ew) of
                 Inl e \<Rightarrow> Inl e
               | Inr membership \<Rightarrow>
                   mcla_assign choice g (astype_bool H) (shape1 B) nclass membership)"
    if "\<not> all_missing B"
    using assms that by (rule mcla_edges_aux)
qed

theorem mcla_self_edges_witness:
  "wf_array ex_bcs \<and> 0 < shape0 ex_bcs \<and> rounding_ok (\<lambda>x. x) \<and> \<not> all_missing ex_bcs \<and>
   (\<exists>H S xadj adjncy ew.
          create_hypergraph ex_bcs = Inr (Some H)
        \<and> mcla_similarity (\<lambda>x. x) (astype_bool H) = Inr S
        \<and> to_pymetis_format S = (xadj, adjncy, ew)
        \<and> (\<forall>a<shape1 H.
              jaccard (\<lambda>x. x) (column (astype_bool H) a) (column (astype_bool H) a) = 0
            \<and> rows S ! a ! a = 1000
            \<and> (\<exists>p<length (csr_row xadj adjncy a).
                  csr_row xadj adjncy a ! p = a \<and> csr_row xadj ew a ! p = 1000))
        \<and> mcla part_zero (\<lambda>x. x) ex_choice (0::nat) ex_bcs 2
            = (case part_zero 2 xadj adjncy (Some ew) of
                 Inl e \<Rightarrow> Inl e
               | Inr membership \<Rightarrow>
                   mcla_assign ex_choice (0::nat) (astype_bool H) (shape1 ex_bcs) 2 membership))"
proof -
  have h1: "wf_array ex_bcs"
    by (simp add: wf_array_def ex_bcs_def)
  have h2: "0 < shape0 ex_bcs"
    by (simp add: ex_bcs_def)
  have h3: "rounding_ok (\<lambda>x. x)"
    by (simp add: rounding_ok_def)
  have h4: "\<not> all_missing ex_bcs"
    by (simp add: all_missing_def ex_bcs_def)
  note t = mcla_self_edges[OF h1 h2 h3, of part_zero ex_choice "0::nat" 2]
  show ?thesis
    by (rule conjI[OF h1 conjI[OF h2 conjI[OF h3 conjI[OF h4
          mp[OF t[THEN conjunct2, THEN conjunct2] h4]]]]])
qed

lemma mcla_labels_some:
  assumes "wf_array B" "0 < shape0 B" "0 < nclass" "part_ok part_graph" "choice_ok choice"
    "\<not> all_missing B"
  shows "\<exists>H S xadj adjncy ew membership celabel g' gs.
          create_hypergraph B = Inr (Some H)
        \<and> mcla_similarity rnd (astype_bool H) = Inr S
        \<and> (\<forall>a<shape1 H. \<forall>b<shape1 H.
              rows S ! a ! b
              = astype_int (rnd (rnd (1 - jaccard_distance rnd (hyperedge H a) (hyperedge H b)) * 1000)))
        \<and> to_pymetis_format S = (xadj, adjncy, ew)
        \<and> part_graph nclass xadj adjncy (Some ew) = Inr membership
        \<and> mcla part_graph rnd choice g B nclass = Inr (celabel, g')
        \<and> length celabel = shape1 B \<and> length gs = shape1 B
        \<and> (\<forall>i<shape1 B.
              celabel ! i = fst (choice (gs ! i) (tied_clusters H membership nclass i))
            \<and> gs ! i = (if i = 0 then g
                        else snd (choice (gs ! (i - 1)) (tied_clusters H membership nclass (i - 1))))
            \<and> celabel ! i \<in> set (tied_clusters H membership nclass i)
            \<and> celabel ! i < nclass
            \<and> (\<forall>k<nclass. meta_count H membership i k \<le> meta_count H membership i (celabel ! i)))"
proof -
  from create_hypergraph_some[OF assms(1,2)] obtain H where
    H: "create_hypergraph B = Inr (Some H)" "wf_array H" "shape0 H = shape1 B"
    by blast
  let ?Hb = "astype_bool H" and ?n = "shape1 B"
  have cols: "0 < shape1 H"
    using hypergraph_no_column[OF assms(1,2) H(1)] assms(6) by simp
  define S where "S = similarity_values rnd ?Hb"
  obtain xadj adjncy ew where tri: "to_pymetis_format S = (xadj, adjncy, ew)"
    by (cases "to_pymetis_format S") blast
  have Hb: "wf_array ?Hb" "shape1 ?Hb = shape1 H"
    using astype_bool_wf[OF H(2)] by simp_all
  have sim: "mcla_similarity rnd ?Hb = Inr S"
    unfolding S_def using cols Hb(2) by (intro mcla_similarity_cases(1)) simp
  have S: "wf_array S" "shape0 S = shape1 H"
    using similarity_values_entry(1,2)[OF Hb(1), of rnd] Hb(2) by (simp_all add: S_def)
  have ent: "rows S ! a ! b
          = astype_int (rnd (rnd (1 - jaccard_distance rnd (hyperedge H a) (hyperedge H b)) * 1000))"
    if "a < shape1 H" "b < shape1 H" for a b
    using that similarity_values_entry(4)[OF Hb(1), of a b rnd] Hb(2) jaccard_sets[OF H(2) that, of rnd]
    by (simp add: S_def)
  have nodes: "length xadj - 1 = shape1 H"
    using to_pymetis_format_rows(1)[OF tri] S by (simp add: wf_array_def)
  from assms(3,4) obtain membership where
    m: "part_graph nclass xadj adjncy (Some ew) = Inr membership"
       "length membership = length xadj - 1" "\<forall>v\<in>set membership. v < nclass"
    unfolding part_ok_def by blast
  define counts where
    "counts = map (\<lambda>i. map (\<lambda>k. int (meta_count H membership i k)) [0..<nclass]) [0..<?n]"
  have acc: "accumulate nclass (enumerate 0 membership) ?Hb (rows (np_zeros ?n nclass)) = Inr counts"
    unfolding counts_def using H(2,3) m(2,3) nodes by (intro accumulate_counts) simp_all
  have cnt: "length counts = ?n"
    "\<And>i. i < ?n \<Longrightarrow> tied_max (counts ! i) = tied_clusters H membership nclass i"
    by (simp_all add: counts_def tied_max_counts)
  have ne: "\<forall>v\<in>set counts. v \<noteq> []"
    using assms(3) by (auto simp: counts_def)
  from choose_each_result[OF ne, of choice g] obtain celabel g' where
    ks: "choose_each choice g counts = Inr (celabel, g')" "length celabel = length counts"
        "\<forall>i<length counts. celabel ! i
            = fst (choice (draw_states choice g counts ! i) (tied_max (counts ! i)))"
    by blast
  define gs where "gs = draw_states choice g counts"
  have run: "mcla part_graph rnd choice g B nclass = Inr (celabel, g')"
    using mcla_unfold[OF H(1) sim tri, of part_graph choice g nclass] m(1) acc ks(1)
    by (simp add: mcla_assign_def)
  have lab: "celabel ! i = fst (choice (gs ! i) (tied_clusters H membership nclass i))"
    if "i < ?n" for i
    using that ks(3) cnt by (simp add: gs_def)
  have st: "gs ! i = (if i = 0 then g
                    else snd (choice (gs ! (i - 1)) (tied_clusters H membership nclass (i - 1))))"
    if "i < ?n" for i
  proof (cases i)
    case 0
    have "counts \<noteq> []"
      using that cnt(1) by auto
    then show ?thesis
      using 0 draw_states_step(1)[of counts choice g] by (simp add: gs_def)
  next
    case (Suc j)
    then show ?thesis
      using that cnt draw_states_step(2)[of j counts choice g] by (simp add: gs_def)
  qed
  have mem: "celabel ! i \<in> set (tied_clusters H membership nclass i)" if "i < ?n" for i
  proof -
    have "counts ! i \<noteq> []"
      using that ne cnt(1) by simp
    then have "tied_clusters H membership nclass i \<noteq> []"
      using tied_max_nonempty[of "counts ! i"] cnt(2)[OF that] by simp
    then show ?thesis
      using assms(5) lab[OF that] by (simp add: choice_ok_def)
  qed
  have best: "celabel ! i < nclass
        \<and> (\<forall>k<nclass. meta_count H membership i k \<le> meta_count H membership i (celabel ! i))"
    if "i < ?n" for i
    using mem[OF that] by (simp add: tied_clusters_def)
  have lens: "length celabel = ?n" "length gs = ?n"
    using ks(2) cnt(1) by (simp_all add: gs_def draw_states_length)
  have w: "\<forall>a<shape1 H. \<forall>b<shape1 H.
          rows S ! a ! b
          = astype_int (rnd (rnd (1 - jaccard_distance rnd (hyperedge H a) (hyperedge H b)) * 1000))"
    using ent by blast
  have per: "\<forall>i<shape1 B.
          celabel ! i = fst (choice (gs ! i) (tied_clusters H membership nclass i))
        \<and> gs ! i = (if i = 0 then g
                    else snd (choice (gs ! (i - 1)) (tied_clusters H membership nclass (i - 1))))
        \<and> celabel ! i \<in> set (tied_clusters H membership nclass i)
        \<and> celabel ! i < nclass
        \<and> (\<forall>k<nclass. meta_count H membership i k \<le> meta_count H membership i (celabel ! i))"
  proof (intro allI impI)
    fix i assume i: "i < shape1 B"
    show "celabel ! i = fst (choice (gs ! i) (tied_clusters H membership nclass i))
        \<and> gs ! i = (if i = 0 then g
                    else snd (choice (gs ! (i - 1)) (tied_clusters H membership nclass (i - 1))))
        \<and> celabel ! i \<in> set (tied_clusters H membership nclass i)
        \<and> celabel ! i < nclass
        \<and> (\<forall>k<nclass. meta_count H membership i k \<le> meta_count H membership i (celabel ! i))"
      using lab[OF i] st[OF i] mem[OF i] best[OF i] by (intro conjI) simp_all
  qed
  show ?thesis
    by (intro exI[of _ H] exI[of _ S] exI[of _ xadj] exI[of _ adjncy] exI[of _ ew]
          exI[of _ membership] exI[of _ celabel] exI[of _ g'] exI[of _ gs]
          conjI H(1) sim w tri m(1) run lens per)
qed







section \<open>Properties of orthogonal_nmf_algorithm and nmf\<close>

lemma fold_const_funpow: "fold (\<lambda>_. f) xs s = (f ^^ length xs) s"
  by (induction xs arbitrary: s) (simp_all add: funpow_swap1)

lemma fle_refl: "x \<noteq> NaN \<Longrightarrow> fle x x"
  by (cases x) simp_all

lemma fle_total: "x \<noteq> NaN \<Longrightarrow> y \<noteq> NaN \<Longrightarrow> fle x y \<or> fle y x"
  by (cases x; cases y) auto

lemma fle_trans: "fle x y \<Longrightarrow> fle y z \<Longrightarrow> fle x z"
  by (cases x; cases y; cases z) auto

lemma argmax_scan_range:
  "max_ind < i \<Longrightarrow> argmax_scan xs i mp max_ind < i + length xs"
proof (induction xs arbitrary: i mp max_ind)
  case Nil
  then show ?case by simp
next
  case (Cons x xs)
  have a: "argmax_scan xs (Suc i) x i < Suc i + length xs"
    by (rule Cons.IH) simp
  have b: "argmax_scan xs (Suc i) mp max_ind < Suc i + length xs"
    using Cons.prems by (intro Cons.IH) simp
  show ?case
    using a b by simp
qed

lemma np_argmax_range: "v \<noteq> [] \<Longrightarrow> np_argmax v < length v"
proof (cases v)
  case Nil
  assume "v \<noteq> []"
  with Nil show ?thesis by simp
next
  case (Cons x xs)
  have "argmax_scan xs 1 x 0 < 1 + length xs"
    by (rule argmax_scan_range) simp
  with Cons show ?thesis
    by (simp add: np_argmax_def)
qed

lemma argmax_scan_first_max:
  assumes "NaN \<notin> set pre" "NaN \<notin> set xs" "i = length pre" "max_ind < i" "mp = pre ! max_ind"
    and "\<forall>j<i. fle (pre ! j) mp" "\<forall>j<max_ind. \<not> fle mp (pre ! j)"
  shows "(\<forall>j<length (pre @ xs). fle ((pre @ xs) ! j) ((pre @ xs) ! argmax_scan xs i mp max_ind))
       \<and> (\<forall>j<argmax_scan xs i mp max_ind.
             \<not> fle ((pre @ xs) ! argmax_scan xs i mp max_ind) ((pre @ xs) ! j))"
  using assms
proof (induction xs arbitrary: pre i mp max_ind)
  case Nil
  then show ?case by simp
next
  case (Cons x xs)
  have x: "x \<noteq> NaN" using Cons.prems(2) by auto
  have "pre ! max_ind \<in> set pre" using Cons.prems(3,4) by simp
  then have mp: "mp \<noteq> NaN" using Cons.prems(1,5) by auto
  have pre: "NaN \<notin> set (pre @ [x])" using Cons.prems(1) x by auto
  have xs: "NaN \<notin> set xs" using Cons.prems(2) by auto
  have len: "Suc i = length (pre @ [x])" using Cons.prems(3) by simp
  show ?case
  proof (cases "fle x mp")
    case True
    have "(\<forall>j<length ((pre @ [x]) @ xs).
             fle (((pre @ [x]) @ xs) ! j) (((pre @ [x]) @ xs) ! argmax_scan xs (Suc i) mp max_ind))
       \<and> (\<forall>j<argmax_scan xs (Suc i) mp max_ind.
             \<not> fle (((pre @ [x]) @ xs) ! argmax_scan xs (Suc i) mp max_ind) (((pre @ [x]) @ xs) ! j))"
    proof (rule Cons.IH[OF pre xs len])
      show "max_ind < Suc i" using Cons.prems(4) by simp
      show "mp = (pre @ [x]) ! max_ind"
        using Cons.prems(3,4,5) by (simp add: nth_append)
      show "\<forall>j<Suc i. fle ((pre @ [x]) ! j) mp"
        using Cons.prems(3,6) True by (simp add: nth_append less_Suc_eq)
      show "\<forall>j<max_ind. \<not> fle mp ((pre @ [x]) ! j)"
        using Cons.prems(3,4,7) by (simp add: nth_append)
    qed
    with True show ?thesis by simp
  next
    case False
    then have gt: "fle mp x" using fle_total[OF x mp] by blast
    have "(\<forall>j<length ((pre @ [x]) @ xs).
             fle (((pre @ [x]) @ xs) ! j) (((pre @ [x]) @ xs) ! argmax_scan xs (Suc i) x i))
       \<and> (\<forall>j<argmax_scan xs (Suc i) x i.
             \<not> fle (((pre @ [x]) @ xs) ! argmax_scan xs (Suc i) x i) (((pre @ [x]) @ xs) ! j))"
    proof (rule Cons.IH[OF pre xs len])
      show "i < Suc i" by simp
      show "x = (pre @ [x]) ! i"
        using Cons.prems(3) by simp
      show "\<forall>j<Suc i. fle ((pre @ [x]) ! j) x"
      proof (intro allI impI)
        fix j assume "j < Suc i"
        then show "fle ((pre @ [x]) ! j) x"
          using Cons.prems(3,6) gt fle_refl[OF x] fle_trans[of "pre ! j" mp x]
          by (cases "j = i") (simp_all add: nth_append)
      qed
      show "\<forall>j<i. \<not> fle x ((pre @ [x]) ! j)"
      proof (intro allI impI)
        fix j assume j: "j < i"
        then have "fle (pre ! j) mp" using Cons.prems(6) by simp
        then have "\<not> fle x (pre ! j)"
          using False fle_trans[of x "pre ! j" mp] by blast
        then show "\<not> fle x ((pre @ [x]) ! j)"
          using j Cons.prems(3) by (simp add: nth_append)
      qed
    qed
    with False x show ?thesis by simp
  qed
qed

lemma np_argmax_first_max:
  assumes "v \<noteq> []" "NaN \<notin> set v"
  shows "np_argmax v < length v
       \<and> (\<forall>j<length v. fle (v ! j) (v ! np_argmax v))
       \<and> (\<forall>j<np_argmax v. \<not> fle (v ! np_argmax v) (v ! j))"
proof -
  from assms(1) obtain x xs where v: "v = x # xs" by (cases v) auto
  have x: "x \<noteq> NaN" using assms(2) v by auto
  have "(\<forall>j<length ([x] @ xs). fle (([x] @ xs) ! j) (([x] @ xs) ! argmax_scan xs 1 x 0))
       \<and> (\<forall>j<argmax_scan xs 1 x 0. \<not> fle (([x] @ xs) ! argmax_scan xs 1 x 0) (([x] @ xs) ! j))"
    using assms(2) v fle_refl[OF x] by (intro argmax_scan_first_max) simp_all
  then show ?thesis
    using np_argmax_range[OF assms(1)] v x by (simp add: np_argmax_def)
qed

lemma draws_length: "length (fst (draws rand k g)) = k"
  by (induction k arbitrary: g) (simp_all add: case_prod_beta Let_def)

lemma nmf_init_shape:
  "length (rows (fst (fst (nmf_init rand g n nclass)))) = n"
  "shape1 (snd (fst (nmf_init rand g n nclass))) = nclass"
  by (simp_all add: nmf_init_def random_rand2_def np_diag_def case_prod_beta Let_def draws_length)

lemma nmf_update_shape:
  assumes "length (rows W) = n" "length (rows (fst QS)) = n"
  shows "length (rows (fst (nmf_update ar W QS))) = n"
    and "shape1 (snd (nmf_update ar W QS)) = shape1 (snd QS)"
  using assms by (simp_all add: nmf_update_def Let_def ewise2_def ewise_def fdot_def)

lemma nmf_rounds_shape:
  assumes "length (rows W) = n" "length (rows (fst QS)) = n"
  shows "length (rows (fst ((nmf_update ar W ^^ k) QS))) = n
       \<and> shape1 (snd ((nmf_update ar W ^^ k) QS)) = shape1 (snd QS)"
proof (induction k)
  case 0
  show ?case using assms(2) by simp
next
  case (Suc k)
  then show ?case
    using nmf_update_shape[OF assms(1), of "(nmf_update ar W ^^ k) QS" ar] by simp
qed

lemma orthogonal_nmf_rounds:
  "orthogonal_nmf_algorithm ar rand g W nclass maxiter
   = ((nmf_update ar W ^^ maxiter) (fst (nmf_init rand g (shape0 W) nclass)),
      snd (nmf_init rand g (shape0 W) nclass))"
  by (simp add: orthogonal_nmf_algorithm_def Let_def case_prod_beta fold_const_funpow)

lemma label_extraction:
  assumes "length (rows Q) = n" "shape1 S = nclass" "0 < nclass"
  shows "argmax_axis1 (fdot ar Q (ewise f S)) = Inr (map np_argmax (rows (fdot ar Q (ewise f S))))"
    and "length (map np_argmax (rows (fdot ar Q (ewise f S)))) = n"
    and "\<forall>x\<in>set (map np_argmax (rows (fdot ar Q (ewise f S)))). x < nclass"
proof -
  show "argmax_axis1 (fdot ar Q (ewise f S)) = Inr (map np_argmax (rows (fdot ar Q (ewise f S))))"
    using assms(2,3) by (simp add: argmax_axis1_def fdot_def ewise_def)
  show "length (map np_argmax (rows (fdot ar Q (ewise f S)))) = n"
    using assms(1) by (simp add: fdot_def)
  show "\<forall>x\<in>set (map np_argmax (rows (fdot ar Q (ewise f S)))). x < nclass"
  proof
    fix x assume "x \<in> set (map np_argmax (rows (fdot ar Q (ewise f S))))"
    then obtain r where r: "r \<in> set (rows (fdot ar Q (ewise f S)))" "x = np_argmax r"
      by auto
    then have "length r = nclass"
      using assms(2) by (auto simp: fdot_def ewise_def)
    then show "x < nclass"
      using r(2) assms(3) np_argmax_range[of r] by auto
  qed
qed

lemma nmf_result:
  assumes "0 < nclass"
  shows "nmf ar rnd rand g B nclass
         = Inr (map np_argmax (rows (fdot ar
                  (fst ((nmf_update ar (create_connectivity_matrix rnd B) ^^ nmf_maxiter)
                          (fst (nmf_init rand g (shape1 B) nclass))))
                  (ewise (fsqrt ar)
                     (snd ((nmf_update ar (create_connectivity_matrix rnd B) ^^ nmf_maxiter)
                             (fst (nmf_init rand g (shape1 B) nclass))))))),
                snd (nmf_init rand g (shape1 B) nclass))"
proof -
  let ?M = "create_connectivity_matrix rnd B"
  let ?init = "fst (nmf_init rand g (shape1 B) nclass)"
  let ?QS = "(nmf_update ar ?M ^^ nmf_maxiter) ?init"
  have sh: "shape0 ?M = shape1 B"
    by (simp add: create_connectivity_matrix_def Let_def case_prod_beta)
  have S0: "shape1 (snd ?init) = nclass"
    by (rule nmf_init_shape)
  have inv: "shape1 (snd ((nmf_update ar ?M ^^ k) ?init)) = nclass" for k
  proof (induction k)
    case 0
    show ?case using S0 by simp
  next
    case (Suc k)
    then show ?case by (simp add: nmf_update_def Let_def ewise2_def)
  qed
  have "shape1 (snd ?QS) = nclass"
    by (rule inv)
  then have "argmax_axis1 (fdot ar (fst ?QS) (ewise (fsqrt ar) (snd ?QS)))
             = Inr (map np_argmax (rows (fdot ar (fst ?QS) (ewise (fsqrt ar) (snd ?QS)))))"
    using assms by (simp add: argmax_axis1_def fdot_def ewise_def)
  then show ?thesis
    by (simp add: nmf_def orthogonal_nmf_rounds sh Let_def)
qed

lemma nmf_valid:
  assumes "wf_array B" "0 < nclass"
  shows "\<exists>celabel g'. nmf ar rnd rand g B nclass = Inr (celabel, g')
           \<and> length celabel = shape1 B \<and> (\<forall>x\<in>set celabel. x < nclass)"
proof -
  let ?M = "create_connectivity_matrix rnd B"
  let ?init = "fst (nmf_init rand g (shape1 B) nclass)"
  let ?QS = "(nmf_update ar ?M ^^ nmf_maxiter) ?init"
  have M: "length (rows ?M) = shape1 B"
    using connectivity_wf[OF assms(1), of rnd] by (simp add: wf_array_def)
  have Q0: "length (rows (fst ?init)) = shape1 B" "shape1 (snd ?init) = nclass"
    by (rule nmf_init_shape)+
  have QS: "length (rows (fst ?QS)) = shape1 B" "shape1 (snd ?QS) = nclass"
    using nmf_rounds_shape[OF M Q0(1), where ar = ar and k = nmf_maxiter] Q0(2) by simp_all
  show ?thesis
    using nmf_result[OF assms(2), of ar rnd rand g B]
      label_extraction(2,3)[OF QS assms(2), of ar "fsqrt ar"]
    by blast
qed

text \<open>
  Claim C8. \<open>orthogonal_nmf_algorithm\<close> returns the random initialisation after exactly
  \<open>maxiter\<close> applications of the update, whatever the values are: there is no convergence
  test and no early exit; \<open>nmf\<close> asks for 500 rounds. \<open>nmf\<close> then labels each object with
  \<open>np.argmax\<close> of its row of \<open>Q \<cdot> sqrt(S)\<close>, which for a row without NaN is the first index
  at which the row attains its maximum. With \<open>maxiter = 0\<close> the factors are the untouched
  initialisation, and the labels read off it are \<open>N\<close> values below \<open>nclass\<close>, for any
  positive \<open>nclass\<close>.
\<close>

theorem nmf_rounds_and_labels:
  "fst (orthogonal_nmf_algorithm ar rand g W nclass maxiter)
     = (nmf_update ar W ^^ maxiter) (fst (nmf_init rand g (shape0 W) nclass))
   \<and> snd (orthogonal_nmf_algorithm ar rand g W nclass maxiter)
     = snd (nmf_init rand g (shape0 W) nclass)
   \<and> nmf_maxiter = 500
   \<and> (0 < nclass \<longrightarrow>
        nmf ar rnd rand g B nclass
        = Inr (map np_argmax (rows (fdot ar
                 (fst ((nmf_update ar (create_connectivity_matrix rnd B) ^^ nmf_maxiter)
                         (fst (nmf_init rand g (shape1 B) nclass))))
                 (ewise (fsqrt ar)
                    (snd ((nmf_update ar (create_connectivity_matrix rnd B) ^^ nmf_maxiter)
                            (fst (nmf_init rand g (shape1 B) nclass))))))),
               snd (nmf_init rand g (shape1 B) nclass)))
   \<and> (\<forall>v. v \<noteq> [] \<and> NaN \<notin> set v \<longrightarrow>
          np_argmax v < length v
        \<and> (\<forall>j<length v. fle (v ! j) (v ! np_argmax v))
        \<and> (\<forall>j<np_argmax v. \<not> fle (v ! np_argmax v) (v ! j)))
   \<and> fst (orthogonal_nmf_algorithm ar rand g W nclass 0)
     = fst (nmf_init rand g (shape0 W) nclass)
   \<and> (0 < nclass \<longrightarrow>
        (\<exists>celabel.
            argmax_axis1 (fdot ar (fst (fst (orthogonal_nmf_algorithm ar rand g W nclass 0)))
                            (ewise (fsqrt ar) (snd (fst (orthogonal_nmf_algorithm ar rand g W nclass 0)))))
            = Inr celabel
          \<and> length celabel = shape0 W \<and> (\<forall>x\<in>set celabel. x < nclass)))"
proof -
  let ?init = "fst (nmf_init rand g (shape0 W) nclass)"
  have rounds: "fst (orthogonal_nmf_algorithm ar rand g W nclass k) = (nmf_update ar W ^^ k) ?init"
    and state: "snd (orthogonal_nmf_algorithm ar rand g W nclass k)
                = snd (nmf_init rand g (shape0 W) nclass)" for k
    by (simp_all add: orthogonal_nmf_rounds)
  have zero: "fst (orthogonal_nmf_algorithm ar rand g W nclass 0) = ?init"
    by (simp add: rounds)
  have first: "\<forall>v. v \<noteq> [] \<and> NaN \<notin> set v \<longrightarrow>
          np_argmax v < length v
        \<and> (\<forall>j<length v. fle (v ! j) (v ! np_argmax v))
        \<and> (\<forall>j<np_argmax v. \<not> fle (v ! np_argmax v) (v ! j))"
    by (intro allI impI, elim conjE, rule np_argmax_first_max)
  have lab: "0 < nclass \<longrightarrow>
        (\<exists>celabel.
            argmax_axis1 (fdot ar (fst (fst (orthogonal_nmf_algorithm ar rand g W nclass 0)))
                            (ewise (fsqrt ar) (snd (fst (orthogonal_nmf_algorithm ar rand g W nclass 0)))))
            = Inr celabel
          \<and> length celabel = shape0 W \<and> (\<forall>x\<in>set celabel. x < nclass))"
  proof
    assume n: "0 < nclass"
    have Q: "length (rows (fst ?init)) = shape0 W" and S: "shape1 (snd ?init) = nclass"
      by (rule nmf_init_shape)+
    show "\<exists>celabel.
            argmax_axis1 (fdot ar (fst (fst (orthogonal_nmf_algorithm ar rand g W nclass 0)))
                            (ewise (fsqrt ar) (snd (fst (orthogonal_nmf_algorithm ar rand g W nclass 0)))))
            = Inr celabel
          \<and> length celabel = shape0 W \<and> (\<forall>x\<in>set celabel. x < nclass)"
      unfolding zero
      by (intro exI[of _ "map np_argmax (rows (fdot ar (fst ?init) (ewise (fsqrt ar) (snd ?init))))"]
            conjI label_extraction[OF Q S n])
  qed
  have res: "0 < nclass \<longrightarrow>
        nmf ar rnd rand g B nclass
        = Inr (map np_argmax (rows (fdot ar
                 (fst ((nmf_update ar (create_connectivity_matrix rnd B) ^^ nmf_maxiter)
                         (fst (nmf_init rand g (shape1 B) nclass))))
                 (ewise (fsqrt ar)
                    (snd ((nmf_update ar (create_connectivity_matrix rnd B) ^^ nmf_maxiter)
                            (fst (nmf_init rand g (shape1 B) nclass))))))),
               snd (nmf_init rand g (shape1 B) nclass))"
    by (intro impI, rule nmf_result)
  have d: "nmf_maxiter = 500"
    by (simp add: nmf_maxiter_def)
  show ?thesis
    by (rule conjI[OF rounds conjI[OF state conjI[OF d conjI[OF res conjI[OF first
          conjI[OF zero lab]]]]]])
qed

theorem nmf_rounds_and_labels_witness:
  "(0::nat) < 2 \<and> [Fin 1, Fin 3, Fin 3] \<noteq> [] \<and> NaN \<notin> set [Fin 1, Fin 3, Fin 3]
   \<and> np_argmax [Fin 1, Fin 3, Fin 3] < length [Fin 1, Fin 3, Fin 3]
   \<and> (\<exists>celabel.
         argmax_axis1 (fdot ex_arith
             (fst (fst (orthogonal_nmf_algorithm ex_arith ex_rand (0::nat)
                          (create_connectivity_matrix (\<lambda>x. x) ex_bcs) 2 0)))
             (ewise (fsqrt ex_arith)
                (snd (fst (orthogonal_nmf_algorithm ex_arith ex_rand (0::nat)
                             (create_connectivity_matrix (\<lambda>x. x) ex_bcs) 2 0)))))
         = Inr celabel
       \<and> length celabel = shape0 (create_connectivity_matrix (\<lambda>x. x) ex_bcs)
       \<and> (\<forall>x\<in>set celabel. x < 2))"
proof -
  have h1: "(0::nat) < 2"
    by simp
  have h2: "[Fin 1, Fin 3, Fin 3] \<noteq> []"
    by simp
  have h3: "NaN \<notin> set [Fin 1, Fin 3, Fin 3]"
    by simp
  note t = nmf_rounds_and_labels[of ex_arith ex_rand "0::nat"
      "create_connectivity_matrix (\<lambda>x. x) ex_bcs" 2 0 "\<lambda>x. x" ex_bcs]
  note first = t[THEN conjunct2, THEN conjunct2, THEN conjunct2, THEN conjunct2, THEN conjunct1]
  note lab = t[THEN conjunct2, THEN conjunct2, THEN conjunct2, THEN conjunct2, THEN conjunct2,
      THEN conjunct2]
  have a: "np_argmax [Fin 1, Fin 3, Fin 3] < length [Fin 1, Fin 3, Fin 3]"
    using first[rule_format, OF conjI[OF h2 h3]] by (rule conjunct1)
  show ?thesis
    by (rule conjI[OF h1 conjI[OF h2 conjI[OF h3 conjI[OF a mp[OF lab h1]]]]])
qed

section \<open>Properties of cluster_ensembles\<close>





lemma cluster_ensembles_cases:
  "effective_nclass B nclass = PyInt i \<Longrightarrow> 0 < i \<Longrightarrow>
     solver \<notin> {''cspa'', ''mcla'', ''hbgf'', ''nmf''} \<Longrightarrow>
     cluster_ensembles env g B nclass solver = Inl (solver_error solver)"
  "effective_nclass B nclass = PyInt i \<Longrightarrow> 0 < i \<Longrightarrow>
     cluster_ensembles env g B nclass ''cspa'' = with_state g (cspa (env_part env) B (nat i))"
  "effective_nclass B nclass = PyInt i \<Longrightarrow> 0 < i \<Longrightarrow>
     cluster_ensembles env g B nclass ''mcla''
     = mcla (env_part env) (env_rnd env) (env_choice env) g B (nat i)"
  "effective_nclass B nclass = PyInt i \<Longrightarrow> 0 < i \<Longrightarrow>
     cluster_ensembles env g B nclass ''hbgf'' = with_state g (hbgf (env_part env) B (nat i))"
  "effective_nclass B nclass = PyInt i \<Longrightarrow> 0 < i \<Longrightarrow>
     cluster_ensembles env g B nclass ''nmf''
     = nmf (env_arith env) (env_rnd env) (env_rand env) g B (nat i)"
  by (simp_all add: cluster_ensembles_def Let_def)





section \<open>The invariant of all solvers\<close>

lemma cspa_valid:
  assumes "wf_array B" "0 < shape0 B" "0 < nclass" "part_ok part_graph"
  shows "\<exists>celabel. cspa part_graph B nclass = Inr celabel \<and> valid_labels (shape1 B) nclass celabel"
proof -
  from create_hypergraph_some[OF assms(1,2)] obtain H where
    H: "create_hypergraph B = Inr (Some H)" "wf_array H" "shape0 H = shape1 B"
    by blast
  define S where "S = np_dot H (np_T H)"
  obtain xadj adjncy ew where tri: "to_pymetis_format S = (xadj, adjncy, ew)"
    by (cases "to_pymetis_format S") blast
  have "length (rows S) = shape1 B"
    using np_dot_T_wf[OF H(2)] H(3) by (simp add: S_def wf_array_def)
  then have nodes: "length xadj - 1 = shape1 B"
    using to_pymetis_format_rows(1)[OF tri] by simp
  from assms(3,4) obtain membership where
    m: "part_graph nclass xadj adjncy (Some ew) = Inr membership"
       "length membership = length xadj - 1" "\<forall>v\<in>set membership. v < nclass"
    unfolding part_ok_def by blast
  have "cspa part_graph B nclass = Inr membership"
    using tri m(1) by (simp add: cspa_def H(1) S_def[symmetric])
  then show ?thesis
    using m(2,3) nodes by (simp add: valid_labels_def)
qed

lemma hbgf_valid:
  assumes "wf_array B" "0 < shape0 B" "0 < nclass" "part_ok part_graph"
  shows "\<exists>celabel. hbgf part_graph B nclass = Inr celabel \<and> valid_labels (shape1 B) nclass celabel"
proof -
  from create_hypergraph_some[OF assms(1,2)] obtain H where
    H: "create_hypergraph B = Inr (Some H)" "wf_array H" "shape0 H = shape1 B"
    by blast
  define W where "W = hbgf_adjacency H"
  obtain xadj adjncy ew where tri: "to_pymetis_format W = (xadj, adjncy, ew)"
    by (cases "to_pymetis_format W") blast
  have nodes: "length xadj - 1 = shape1 H + shape1 B"
    using to_pymetis_format_rows(1)[OF tri] hbgf_adjacency_rows(3)[OF H(2)] H(3)
    by (simp add: W_def)
  from assms(3,4) obtain membership where
    m: "part_graph nclass xadj adjncy None = Inr membership"
       "length membership = length xadj - 1" "\<forall>v\<in>set membership. v < nclass"
    unfolding part_ok_def by blast
  have "hbgf part_graph B nclass = Inr (drop (shape1 H) membership)"
    using tri m(1) by (simp add: hbgf_def H(1) W_def[symmetric] Let_def)
  moreover have "\<forall>v\<in>set (drop (shape1 H) membership). v < nclass"
    using m(3) by (meson in_set_dropD)
  ultimately show ?thesis
    using m(2) nodes by (simp add: valid_labels_def)
qed

lemma mcla_valid:
  assumes "wf_array B" "0 < shape0 B" "0 < nclass" "part_ok part_graph" "choice_ok choice"
    "\<not> all_missing B"
  shows "\<exists>celabel g'. mcla part_graph rnd choice g B nclass = Inr (celabel, g')
           \<and> valid_labels (shape1 B) nclass celabel"
proof -
  from mcla_labels_some[OF assms, of rnd g] obtain H membership celabel g' where
    r: "mcla part_graph rnd choice g B nclass = Inr (celabel, g')" "length celabel = shape1 B"
       "\<forall>i<shape1 B. celabel ! i < nclass"
    by blast
  have "\<forall>x\<in>set celabel. x < nclass"
    using r(2,3) by (auto simp: in_set_conv_nth)
  then show ?thesis
    using r(1,2) by (simp add: valid_labels_def)
qed

lemma nmf_valid_labels:
  assumes "wf_array B" "0 < nclass"
  shows "\<exists>celabel g'. nmf ar rnd rand g B nclass = Inr (celabel, g')
           \<and> valid_labels (shape1 B) nclass celabel"
  using nmf_valid[OF assms, of ar rnd rand g] by (simp add: valid_labels_def)

lemma effective_nclass_int: "effective_nclass B (PyInt i) = PyInt i"
  by (simp add: effective_nclass_def)

lemma cluster_ensembles_int:
  assumes "0 < nclass"
  shows "cluster_ensembles env g B (PyInt (int nclass)) ''cspa''
         = with_state g (cspa (env_part env) B nclass)"
    and "cluster_ensembles env g B (PyInt (int nclass)) ''mcla''
         = mcla (env_part env) (env_rnd env) (env_choice env) g B nclass"
    and "cluster_ensembles env g B (PyInt (int nclass)) ''hbgf''
         = with_state g (hbgf (env_part env) B nclass)"
    and "cluster_ensembles env g B (PyInt (int nclass)) ''nmf''
         = nmf (env_arith env) (env_rnd env) (env_rand env) g B nclass"
  using assms cluster_ensembles_cases(2-5)[OF effective_nclass_int, of "int nclass" env g B]
  by simp_all

lemma cluster_ensembles_valid:
  assumes "wf_array B" "0 < shape0 B" "0 < nclass" "part_ok (env_part env)"
    "solver \<in> {''cspa'', ''hbgf'', ''nmf''}"
  shows "\<exists>celabel g'. cluster_ensembles env g B (PyInt (int nclass)) solver = Inr (celabel, g')
           \<and> valid_labels (shape1 B) nclass celabel"
proof -
  from assms(5) consider "solver = ''cspa''" | "solver = ''hbgf''" | "solver = ''nmf''"
    by blast
  then show ?thesis
  proof cases
    case 1
    from cspa_valid[OF assms(1-4)] obtain celabel where
      "cspa (env_part env) B nclass = Inr celabel" "valid_labels (shape1 B) nclass celabel"
      by blast
    then show ?thesis
      unfolding 1 cluster_ensembles_int(1)[OF assms(3)] by (simp add: with_state_def)
  next
    case 2
    from hbgf_valid[OF assms(1-4)] obtain celabel where
      "hbgf (env_part env) B nclass = Inr celabel" "valid_labels (shape1 B) nclass celabel"
      by blast
    then show ?thesis
      unfolding 2 cluster_ensembles_int(3)[OF assms(3)] by (simp add: with_state_def)
  next
    case 3
    show ?thesis
      unfolding 3 cluster_ensembles_int(4)[OF assms(3)] using assms(1,3) by (rule nmf_valid_labels)
  qed
qed

text \<open>
  Claim C1, as stated, asks every solver to return labels for every base-clustering array
  with at least one run. \<open>mcla\<close> does not when no run has given any label: the incidence
  matrix has no column, and the distance routine raises a ValueError on the empty set of
  hyperedges, alone and through \<open>cluster_ensembles\<close>.
\<close>

theorem mcla_all_missing_counterexample:
  "wf_array ex_all_missing \<and> 0 < shape0 ex_all_missing \<and> (0::nat) < 2
   \<and> part_ok (env_part ex_env) \<and> choice_ok (env_choice ex_env)
   \<and> mcla (env_part ex_env) (env_rnd ex_env) (env_choice ex_env) 0 ex_all_missing 2
       = Inl (ValueError ''Found array with 0 sample(s)'')
   \<and> cluster_ensembles ex_env 0 ex_all_missing (PyInt (int 2)) ''mcla''
       = Inl (ValueError ''Found array with 0 sample(s)'')"
proof -
  have h1: "wf_array ex_all_missing"
    by (simp add: wf_array_def ex_all_missing_def)
  have h2: "0 < shape0 ex_all_missing"
    by (simp add: ex_all_missing_def)
  have h3: "(0::nat) < 2"
    by simp
  have h4: "part_ok (env_part ex_env)"
    by (simp add: ex_env_def part_zero_ok)
  have h5: "choice_ok (env_choice ex_env)"
    by (simp add: ex_env_def choice_ok_def ex_choice_def)
  have c1: "mcla (env_part ex_env) (env_rnd ex_env) (env_choice ex_env) 0 ex_all_missing 2
       = Inl (ValueError ''Found array with 0 sample(s)'')"
    by code_simp
  have c2: "cluster_ensembles ex_env 0 ex_all_missing (PyInt (int 2)) ''mcla''
       = Inl (ValueError ''Found array with 0 sample(s)'')"
    by code_simp
  show ?thesis
    by (rule conjI[OF h1 conjI[OF h2 conjI[OF h3 conjI[OF h4 conjI[OF h5 conjI[OF c1 c2]]]]]])
qed

text \<open>
  Claim C1, amended. For a base-clustering array of shape \<open>(R, N)\<close> with \<open>R \<ge> 1\<close>, a
  positive class count, and a partitioner that returns one value in \<open>[0, nclass)\<close> for each
  node, each of \<open>cspa\<close>, \<open>hbgf\<close>, \<open>nmf\<close>, and \<open>cluster_ensembles\<close> with one of these three
  solver names, returns a label vector of length \<open>N\<close> with every entry in \<open>[0, nclass)\<close>.
  \<open>mcla\<close>, and \<open>cluster_ensembles\<close> with the solver name \<open>mcla\<close>, return such a vector when
  some run has given some object a label, the random source's \<open>choice\<close> being taken to return
  one of its candidates; when every label is missing they end with the ValueError of the
  distance routine.
\<close>

theorem all_solvers_valid_labels:
  assumes "wf_array B" "0 < shape0 B" "0 < nclass" "part_ok (env_part env)"
    "choice_ok (env_choice env)"
  shows "(\<exists>celabel. cspa (env_part env) B nclass = Inr celabel
            \<and> valid_labels (shape1 B) nclass celabel)
    \<and> (\<exists>celabel. hbgf (env_part env) B nclass = Inr celabel
            \<and> valid_labels (shape1 B) nclass celabel)
    \<and> (\<exists>celabel g'. nmf (env_arith env) (env_rnd env) (env_rand env) g B nclass
              = Inr (celabel, g')
            \<and> valid_labels (shape1 B) nclass celabel)
    \<and> (\<forall>solver \<in> {''cspa'', ''hbgf'', ''nmf''}.
          \<exists>celabel g'. cluster_ensembles env g B (PyInt (int nclass)) solver
              = Inr (celabel, g')
            \<and> valid_labels (shape1 B) nclass celabel)
    \<and> (\<not> all_missing B \<longrightarrow>
          (\<exists>celabel g'. mcla (env_part env) (env_rnd env) (env_choice env) g B nclass
              = Inr (celabel, g')
            \<and> valid_labels (shape1 B) nclass celabel)
        \<and> (\<exists>celabel g'. cluster_ensembles env g B (PyInt (int nclass)) ''mcla''
              = Inr (celabel, g')
            \<and> valid_labels (shape1 B) nclass celabel))
    \<and> (all_missing B \<longrightarrow>
          mcla (env_part env) (env_rnd env) (env_choice env) g B nclass
            = Inl (ValueError ''Found array with 0 sample(s)'')
        \<and> cluster_ensembles env g B (PyInt (int nclass)) ''mcla''
            = Inl (ValueError ''Found array with 0 sample(s)''))"
proof (intro conjI ballI impI)
  show "\<exists>celabel. cspa (env_part env) B nclass = Inr celabel
            \<and> valid_labels (shape1 B) nclass celabel"
    using assms(1-4) by (rule cspa_valid)
  show "\<exists>celabel. hbgf (env_part env) B nclass = Inr celabel
            \<and> valid_labels (shape1 B) nclass celabel"
    using assms(1-4) by (rule hbgf_valid)
  show "\<exists>celabel g'. nmf (env_arith env) (env_rnd env) (env_rand env) g B nclass
              = Inr (celabel, g')
            \<and> valid_labels (shape1 B) nclass celabel"
    using assms(1,3) by (rule nmf_valid_labels)
  show "\<exists>celabel g'. cluster_ensembles env g B (PyInt (int nclass)) solver
              = Inr (celabel, g')
            \<and> valid_labels (shape1 B) nclass celabel"
    if "solver \<in> {''cspa'', ''hbgf'', ''nmf''}" for solver
    using assms(1-4) that by (rule cluster_ensembles_valid)
  show "\<exists>celabel g'. mcla (env_part env) (env_rnd env) (env_choice env) g B nclass
              = Inr (celabel, g')
            \<and> valid_labels (shape1 B) nclass celabel"
    if "\<not> all_missing B"
    using assms that by (rule mcla_valid)
  show "\<exists>celabel g'. cluster_ensembles env g B (PyInt (int nclass)) ''mcla''
              = Inr (celabel, g')
            \<and> valid_labels (shape1 B) nclass celabel"
    if "\<not> all_missing B"
    unfolding cluster_ensembles_int(2)[OF assms(3)] using assms that by (rule mcla_valid)
  show "mcla (env_part env) (env_rnd env) (env_choice env) g B nclass
            = Inl (ValueError ''Found array with 0 sample(s)'')"
    if "all_missing B"
    using assms(1,2) that by (rule mcla_all_missing)
  show "cluster_ensembles env g B (PyInt (int nclass)) ''mcla''
            = Inl (ValueError ''Found array with 0 sample(s)'')"
    if "all_missing B"
    unfolding cluster_ensembles_int(2)[OF assms(3)] using assms(1,2) that by (rule mcla_all_missing)
qed

theorem all_solvers_valid_labels_witness:
  "wf_array ex_bcs \<and> 0 < shape0 ex_bcs \<and> (0::nat) < 2 \<and> part_ok (env_part ex_env)
   \<and> choice_ok (env_choice ex_env) \<and> \<not> all_missing ex_bcs
   \<and> (\<exists>celabel. cspa (env_part ex_env) ex_bcs 2 = Inr celabel
            \<and> valid_labels (shape1 ex_bcs) 2 celabel)
   \<and> (\<exists>celabel. hbgf (env_part ex_env) ex_bcs 2 = Inr celabel
            \<and> valid_labels (shape1 ex_bcs) 2 celabel)
   \<and> (\<exists>celabel g'. nmf (env_arith ex_env) (env_rnd ex_env) (env_rand ex_env) 0 ex_bcs 2
              = Inr (celabel, g')
            \<and> valid_labels (shape1 ex_bcs) 2 celabel)
   \<and> (\<exists>celabel g'. cluster_ensembles ex_env 0 ex_bcs (PyInt (int 2)) ''nmf''
              = Inr (celabel, g')
            \<and> valid_labels (shape1 ex_bcs) 2 celabel)
   \<and> (\<exists>celabel g'. mcla (env_part ex_env) (env_rnd ex_env) (env_choice ex_env) 0 ex_bcs 2
              = Inr (celabel, g')
            \<and> valid_labels (shape1 ex_bcs) 2 celabel)
   \<and> (\<exists>celabel g'. cluster_ensembles ex_env 0 ex_bcs (PyInt (int 2)) ''mcla''
              = Inr (celabel, g')
            \<and> valid_labels (shape1 ex_bcs) 2 celabel)
   \<and> wf_array ex_all_missing \<and> 0 < shape0 ex_all_missing \<and> all_missing ex_all_missing
   \<and> (\<exists>celabel. cspa (env_part ex_env) ex_all_missing 2 = Inr celabel
            \<and> valid_labels (shape1 ex_all_missing) 2 celabel)
   \<and> mcla (env_part ex_env) (env_rnd ex_env) (env_choice ex_env) 0 ex_all_missing 2
            = Inl (ValueError ''Found array with 0 sample(s)'')"
proof -
  have h1: "wf_array ex_bcs"
    by (simp add: wf_array_def ex_bcs_def)
  have h2: "0 < shape0 ex_bcs"
    by (simp add: ex_bcs_def)
  have h3: "(0::nat) < 2"
    by simp
  have h4: "part_ok (env_part ex_env)"
    by (simp add: ex_env_def part_zero_ok)
  have h5: "choice_ok (env_choice ex_env)"
    by (simp add: ex_env_def choice_ok_def ex_choice_def)
  have h6: "''nmf'' \<in> {''cspa'', ''hbgf'', ''nmf''}"
    by simp
  have h7: "\<not> all_missing ex_bcs"
    by (simp add: all_missing_def ex_bcs_def)
  have k1: "wf_array ex_all_missing"
    by (simp add: wf_array_def ex_all_missing_def)
  have k2: "0 < shape0 ex_all_missing"
    by (simp add: ex_all_missing_def)
  have k3: "all_missing ex_all_missing"
    by (simp add: all_missing_def ex_all_missing_def)
  note t = all_solvers_valid_labels[OF h1 h2 h3 h4 h5, of "0::nat"]
  note u = all_solvers_valid_labels[OF k1 k2 h3 h4 h5, of "0::nat"]
  note c1 = t[THEN conjunct1]
  note c2 = t[THEN conjunct2, THEN conjunct1]
  note c3 = t[THEN conjunct2, THEN conjunct2, THEN conjunct1]
  note c4 = t[THEN conjunct2, THEN conjunct2, THEN conjunct2, THEN conjunct1, THEN bspec, OF h6]
  note c5 = t[THEN conjunct2, THEN conjunct2, THEN conjunct2, THEN conjunct2, THEN conjunct1,
      THEN mp, OF h7]
  note d1 = u[THEN conjunct1]
  note d2 = u[THEN conjunct2, THEN conjunct2, THEN conjunct2, THEN conjunct2, THEN conjunct2,
      THEN mp, OF k3, THEN conjunct1]
  show ?thesis
    by (rule conjI[OF h1 conjI[OF h2 conjI[OF h3 conjI[OF h4 conjI[OF h5 conjI[OF h7 conjI[OF c1
          conjI[OF c2 conjI[OF c3 conjI[OF c4 conjI[OF conjunct1[OF c5] conjI[OF conjunct2[OF c5]
          conjI[OF k1 conjI[OF k2 conjI[OF k3 conjI[OF d1 d2]]]]]]]]]]]]]]]])
qed

section \<open>The code on concrete inputs\<close>

text \<open>The definitions compute. One run with labels \<open>[0, 0, 1]\<close> gives the one-hot encoding;
  the example ensemble with a missing label gives the incidence matrix \<open>ex_H\<close> and the
  triples below.\<close>

lemma create_hypergraph_one_run:
  "create_hypergraph ex_one_run
   = Inr (Some \<lparr>shape0 = 3, shape1 = 2, rows = [ [1, 0], [1, 0], [0, 1]]\<rparr>)"
  by code_simp

lemma create_hypergraph_example: "create_hypergraph ex_bcs = Inr (Some ex_H)"
  by code_simp

lemma to_pymetis_format_example:
  "to_pymetis_format (np_dot ex_H (np_T ex_H)) = ([0, 2, 4, 5], [0, 1, 0, 1, 2], [1, 1, 1, 2, 2])"
  by code_simp

lemma mcla_similarity_example:
  "mcla_similarity (\<lambda>x. x) (astype_bool ex_H)
   = Inr \<lparr>shape0 = 4, shape1 = 4,
          rows = [ [1000, 0, 0, 500], [0, 1000, 1000, 0], [0, 1000, 1000, 0], [500, 0, 0, 1000]]\<rparr>"
  by code_simp

lemma connectivity_example:
  "rows (create_connectivity_matrix (\<lambda>x. x) ex_bcs)
   = [ [Fin (1 / 2), Fin (1 / 2), Fin 0], [Fin (1 / 2), Fin 1, Fin 0], [Fin 0, Fin 0, Fin 1]]"
  by code_simp

lemma np_argmax_examples:
  "np_argmax [Fin 1, Fin 3, Fin 3, Fin 2] = 1"
  "np_argmax [Fin 1, Fin 3, NaN, PInf] = 2"
  by code_simp+

text \<open>With no run the loop of \<open>create_hypergraph\<close> never assigns \<open>H\<close>, the solvers built on
  it fail on the missing array, and the connectivity matrix is \<open>0/0\<close> everywhere. This is why
  the theorems above ask for at least one run.\<close>

lemma no_run_examples:
  "create_hypergraph ex_no_run = Inr None"
  "cspa part_zero ex_no_run 2 = Inl AttributeError"
  "hbgf part_zero ex_no_run 2 = Inl AttributeError"
  "rows (create_connectivity_matrix (\<lambda>x. x) ex_no_run) = [ [NaN, NaN], [NaN, NaN]]"
  by code_simp+

text \<open>The orchestrator on the example ensemble: the default class count is 2, and the two
  invalid-argument errors carry their messages.\<close>

text \<open>When every label is missing the incidence matrix has no column. \<open>cspa\<close> and \<open>hbgf\<close>
  hand the partitioner a graph without edges, and \<open>mcla\<close> stops at the distance routine.\<close>

lemma all_missing_examples:
  "create_hypergraph ex_all_missing = Inr (Some \<lparr>shape0 = 3, shape1 = 0, rows = [ [], [], []]\<rparr>)"
  "cspa part_zero ex_all_missing 2 = Inr [0, 0, 0]"
  "hbgf part_zero ex_all_missing 2 = Inr [0, 0, 0]"
  "mcla part_zero (\<lambda>x. x) ex_choice (0::nat) ex_all_missing 2
   = Inl (ValueError ''Found array with 0 sample(s)'')"
  by code_simp+

lemma cluster_ensembles_examples:
  "default_nclass ex_bcs = 2"
  "cluster_ensembles ex_env 0 ex_bcs PyNone ''hbgf'' = Inr ([0, 0, 0], 0)"
  "cluster_ensembles ex_env 0 ex_bcs (PyInt (- 12)) ''cspa''
   = Inl (ValueError ''Number of class must be a positive integer; got (nclass=-12)'')"
  "cluster_ensembles ex_env 0 ex_no_run PyNone ''cspa''
   = Inl (ValueError ''Number of class must be a positive integer; got (nclass=-1)'')"
  "cluster_ensembles ex_env 0 ex_bcs (PyBool False) ''cspa''
   = Inl (ValueError ''Number of class must be a positive integer; got (nclass=False)'')"
  "cluster_ensembles ex_env 0 ex_bcs (PyBool True) ''cspa'' = Inr ([0, 0, 0], 0)"
  "cluster_ensembles ex_env 0 ex_bcs (PyBool True) ''mcla'' = Inl TypeError"
  "cluster_ensembles ex_env 0 ex_all_missing (PyBool True) ''mcla''
   = Inl (ValueError ''Found array with 0 sample(s)'')"
  "cluster_ensembles ex_env 0 ex_bcs (PyBool True) ''nmf'' = Inl TypeError"
  "cluster_ensembles ex_env 0 ex_bcs (PyInt 2) ''svd''
   = Inl (ValueError (''Invalid solver parameter: got '' @ [CHR 0x27] @ ''svd'' @ [CHR 0x27]
                 @ '' instead of one of ('cspa', 'mcla', 'hbgf', 'nmf')''))"
  by code_simp+

end
